theory Spec2Isabelle
  imports Complex_Main "HOL-Library.AList" "HOL-Library.Product_Lexorder"
begin

section \<open>The target store and the connection\<close>

text \<open>
  The two destination tables of \<^verbatim>\<open>AutomacaoBanco.py\<close> are lists of rows, in the order
  the rows were inserted; SQL \<^verbatim>\<open>NULL\<close> is \<open>None\<close>. A list (not a map) is used so that
  a duplicated \<^verbatim>\<open>idTipo\<close> is representable: whether duplicates arise is a property to be
  proved, not one built into the type.
\<close>

record tt_row =
  tt_idTipo :: int
  tt_TextoPrimario :: "string option"
  tt_TextoSecundario :: "string option"
  tt_Ativo :: int
  tt_IdConteudo :: "int option"
  tt_Header :: "string option"

record tl_row =
  tl_idTipo :: int
  tl_TextoTitle :: "string option"
  tl_TextoMetaDescription :: "string option"
  tl_Ativo :: int
  tl_IdConteudo :: "int option"

text \<open>
  \<open>MAP_TABLE\<close> is the table named by \<^verbatim>\<open>--map-table\<close>, projected on the two columns
  named by \<^verbatim>\<open>--tipo-col\<close> and \<^verbatim>\<open>--conteudo-col\<close>;
  \<open>PROCESSADO_BUSCA_TIPOS\<close> holds (idCategoria, idGrupo, idTipo).
\<close>

record store =
  PUB_TIPOS_TEXTOS :: "tt_row list"
  PUB_TIPOS_TEXTOS_TITULOS :: "tl_row list"
  MAP_TABLE :: "(int \<times> int option) list"
  PROCESSADO_BUSCA_TIPOS :: "(int \<times> int \<times> int) list"

datatype error = ValueError | KeyError | StoreError

text \<open>The statements the script sends through \<^verbatim>\<open>cur.execute\<close> that can change the store.\<close>

datatype stmt =
    BeginTran
  | Commit
  | Rollback
  | InsertTT int int
  | InsertTL int int
  | UpdateTT "string option" "string option" int
  | UpdateTL "string option" "string option" int

text \<open>
  A connection: the store as this connection sees it, the snapshot taken by an open
  \<^verbatim>\<open>BEGIN TRAN\<close>, the statements sent so far, and a fault plan. \<open>faults = Some n\<close>
  means that the next \<open>n\<close> statements succeed and the one after raises (once);
  \<open>None\<close> means that no statement raises. The plan stands for every failure of the
  database driver, which the script cannot distinguish.
\<close>

record conn =
  db :: store
  tran :: "store option"
  issued :: "stmt list"
  faults :: "nat option"

definition exists_tt :: "store \<Rightarrow> int \<Rightarrow> bool" where
  "exists_tt s idt = (\<exists>r \<in> set (PUB_TIPOS_TEXTOS s). tt_idTipo r = idt)"

definition exists_tl :: "store \<Rightarrow> int \<Rightarrow> bool" where
  "exists_tl s idt = (\<exists>r \<in> set (PUB_TIPOS_TEXTOS_TITULOS s). tl_idTipo r = idt)"

text \<open>
  \<^verbatim>\<open>IF NOT EXISTS (SELECT 1 FROM t WHERE idTipo=?) INSERT INTO t(...) VALUES (?, '', '', 1, ?, NULL)\<close>
\<close>

definition insert_tt :: "int \<Rightarrow> int \<Rightarrow> store \<Rightarrow> store" where
  "insert_tt idt idc s =
     (if exists_tt s idt then s
      else s\<lparr>PUB_TIPOS_TEXTOS := PUB_TIPOS_TEXTOS s @
             [\<lparr>tt_idTipo = idt, tt_TextoPrimario = Some '''', tt_TextoSecundario = Some '''',
               tt_Ativo = 1, tt_IdConteudo = Some idc, tt_Header = None\<rparr>]\<rparr>)"

definition insert_tl :: "int \<Rightarrow> int \<Rightarrow> store \<Rightarrow> store" where
  "insert_tl idt idc s =
     (if exists_tl s idt then s
      else s\<lparr>PUB_TIPOS_TEXTOS_TITULOS := PUB_TIPOS_TEXTOS_TITULOS s @
             [\<lparr>tl_idTipo = idt, tl_TextoTitle = Some '''', tl_TextoMetaDescription = Some '''',
               tl_Ativo = 1, tl_IdConteudo = Some idc\<rparr>]\<rparr>)"

text \<open>\<^verbatim>\<open>UPDATE t SET TextoPrimario=?, TextoSecundario=?, Ativo=1 WHERE idTipo=?\<close>\<close>

definition update_tt :: "string option \<Rightarrow> string option \<Rightarrow> int \<Rightarrow> store \<Rightarrow> store" where
  "update_tt t1 t2 idt s =
     s\<lparr>PUB_TIPOS_TEXTOS :=
         map (\<lambda>r. if tt_idTipo r = idt
                   then r\<lparr>tt_TextoPrimario := t1, tt_TextoSecundario := t2, tt_Ativo := 1\<rparr>
                   else r)
             (PUB_TIPOS_TEXTOS s)\<rparr>"

definition update_tl :: "string option \<Rightarrow> string option \<Rightarrow> int \<Rightarrow> store \<Rightarrow> store" where
  "update_tl t1 t2 idt s =
     s\<lparr>PUB_TIPOS_TEXTOS_TITULOS :=
         map (\<lambda>r. if tl_idTipo r = idt
                   then r\<lparr>tl_TextoTitle := t1, tl_TextoMetaDescription := t2, tl_Ativo := 1\<rparr>
                   else r)
             (PUB_TIPOS_TEXTOS_TITULOS s)\<rparr>"

text \<open>\<^verbatim>\<open>cur.rowcount\<close> of a statement: the number of rows it touched.\<close>

fun rowcount :: "stmt \<Rightarrow> store \<Rightarrow> nat" where
  "rowcount (InsertTT idt idc) s = (if exists_tt s idt then 0 else 1)"
| "rowcount (InsertTL idt idc) s = (if exists_tl s idt then 0 else 1)"
| "rowcount (UpdateTT t1 t2 idt) s = length (filter (\<lambda>r. tt_idTipo r = idt) (PUB_TIPOS_TEXTOS s))"
| "rowcount (UpdateTL t1 t2 idt) s =
     length (filter (\<lambda>r. tl_idTipo r = idt) (PUB_TIPOS_TEXTOS_TITULOS s))"
| "rowcount _ s = 0"

fun run_stmt :: "stmt \<Rightarrow> conn \<Rightarrow> conn" where
  "run_stmt BeginTran c = c\<lparr>tran := Some (db c)\<rparr>"
| "run_stmt Commit c = c\<lparr>tran := None\<rparr>"
| "run_stmt Rollback c = (case tran c of None \<Rightarrow> c | Some s \<Rightarrow> c\<lparr>db := s, tran := None\<rparr>)"
| "run_stmt (InsertTT idt idc) c = c\<lparr>db := insert_tt idt idc (db c)\<rparr>"
| "run_stmt (InsertTL idt idc) c = c\<lparr>db := insert_tl idt idc (db c)\<rparr>"
| "run_stmt (UpdateTT t1 t2 idt) c = c\<lparr>db := update_tt t1 t2 idt (db c)\<rparr>"
| "run_stmt (UpdateTL t1 t2 idt) c = c\<lparr>db := update_tl t1 t2 idt (db c)\<rparr>"

text \<open>
  \<^verbatim>\<open>cur.execute(sql, params)\<close>: the statement is recorded as sent; it raises when the
  fault plan says so, and otherwise takes effect and yields its row count.
\<close>

definition execute :: "conn \<Rightarrow> stmt \<Rightarrow> conn \<times> (error + nat)" where
  "execute c q =
     (let c' = c\<lparr>issued := issued c @ [q]\<rparr> in
      case faults c of
        None \<Rightarrow> (run_stmt q c', Inr (rowcount q (db c)))
      | Some 0 \<Rightarrow> (c'\<lparr>faults := None\<rparr>, Inl StoreError)
      | Some (Suc n) \<Rightarrow> (run_stmt q (c'\<lparr>faults := Some n\<rparr>), Inr (rowcount q (db c))))"

text \<open>\<^verbatim>\<open>conn.commit()\<close>, the driver's own commit (not a statement of the script).\<close>

definition conn_commit :: "conn \<Rightarrow> conn" where
  "conn_commit c = c\<lparr>tran := None\<rparr>"

section \<open>The Seeder: \<^verbatim>\<open>seed_missing\<close>\<close>

text \<open>
  A Python \<^verbatim>\<open>dict\<close> is an association list; \<open>AList.update\<close> is item assignment
  (replace in place, or append a new key) and \<open>map_of\<close> is lookup.
  The loop of \<^verbatim>\<open>seed_missing\<close> over \<^verbatim>\<open>to_do\<close>: an exception leaves the loop at once.
\<close>

fun seed_rows :: "conn \<Rightarrow> (int \<times> int) list \<Rightarrow> conn \<times> (error + unit)" where
  "seed_rows c [] = (c, Inr ())"
| "seed_rows c ((idt, idc) # rest) =
     (case execute c (InsertTT idt idc) of
        (c1, Inl e) \<Rightarrow> (c1, Inl e)
      | (c1, Inr _) \<Rightarrow>
          (case execute c1 (InsertTL idt idc) of
             (c2, Inl e) \<Rightarrow> (c2, Inl e)
           | (c2, Inr _) \<Rightarrow> seed_rows c2 rest))"

text \<open>
  \<^verbatim>\<open>seed_missing(conn, dest_db, idtipo_to_idconteudo, dry_run)\<close>. The result pairs the
  connection afterwards with the exception raised or the tuple returned.
  \<^verbatim>\<open>BEGIN TRAN\<close> is sent before the \<^verbatim>\<open>try\<close>, so its failure propagates without a
  rollback; a failure of any later statement, \<^verbatim>\<open>COMMIT\<close> included, reaches the
  \<^verbatim>\<open>except\<close> branch, which sends \<^verbatim>\<open>ROLLBACK\<close> and re-raises (should the rollback
  itself raise, that exception propagates instead). Messages written by
  \<^verbatim>\<open>log_print\<close> are not part of the state.
\<close>

definition seed_missing ::
  "conn \<Rightarrow> (int \<times> int) list \<Rightarrow> bool \<Rightarrow> conn \<times> (error + nat \<times> nat)" where
  "seed_missing c idtipo_to_idconteudo dry_run =
     (if idtipo_to_idconteudo = [] then (c, Inr (0, 0))
      else
        let to_do = sort idtipo_to_idconteudo in
        if dry_run then (c, Inr (0, 0))
        else
          (case execute c BeginTran of
             (c0, Inl e) \<Rightarrow> (c0, Inl e)
           | (c0, Inr _) \<Rightarrow>
               (case seed_rows c0 to_do of
                  (c1, Inl e) \<Rightarrow>
                    (case execute c1 Rollback of
                       (c2, Inl e') \<Rightarrow> (c2, Inl e')
                     | (c2, Inr _) \<Rightarrow> (c2, Inl e))
                | (c1, Inr _) \<Rightarrow>
                    (case execute c1 Commit of
                       (c2, Inl e) \<Rightarrow>
                         (case execute c2 Rollback of
                            (c3, Inl e') \<Rightarrow> (c3, Inl e')
                          | (c3, Inr _) \<Rightarrow> (c3, Inl e))
                     | (c2, Inr _) \<Rightarrow> (c2, Inr (0, 0))))))"

text \<open>
  What a fault-free run of the seeding loop does to the store, and the rows of a table
  that carry a given \<^verbatim>\<open>idTipo\<close>; both are used to state the properties below.
\<close>

definition seed_store :: "(int \<times> int) list \<Rightarrow> store \<Rightarrow> store" where
  "seed_store xs s = fold (\<lambda>(idt, idc) s. insert_tl idt idc (insert_tt idt idc s)) xs s"

definition rows_tt :: "store \<Rightarrow> int \<Rightarrow> tt_row list" where
  "rows_tt s k = filter (\<lambda>r. tt_idTipo r = k) (PUB_TIPOS_TEXTOS s)"

definition rows_tl :: "store \<Rightarrow> int \<Rightarrow> tl_row list" where
  "rows_tl s k = filter (\<lambda>r. tl_idTipo r = k) (PUB_TIPOS_TEXTOS_TITULOS s)"

text \<open>A small store and connection on which the properties are evaluated.\<close>

definition example_store :: store where
  "example_store =
     \<lparr>PUB_TIPOS_TEXTOS =
        [\<lparr>tt_idTipo = 42, tt_TextoPrimario = Some ''old'', tt_TextoSecundario = None,
          tt_Ativo = 0, tt_IdConteudo = Some 7, tt_Header = None\<rparr>],
      PUB_TIPOS_TEXTOS_TITULOS = [],
      MAP_TABLE = [(99, Some 3), (99, Some 7), (99, None), (99, Some 1)],
      PROCESSADO_BUSCA_TIPOS = [(1, 2, 42)]\<rparr>"

definition example_conn :: "nat option \<Rightarrow> conn" where
  "example_conn f = \<lparr>db = example_store, tran = None, issued = [], faults = f\<rparr>"

section \<open>The Updater: \<^verbatim>\<open>update_textos\<close> and \<^verbatim>\<open>update_titulos\<close>\<close>

text \<open>The rows of the two frames that \<^verbatim>\<open>build_frames\<close> hands to the Updater.\<close>

record textos_row =
  idTipo :: int
  TextoPrimario :: "string option"
  TextoSecundario :: "string option"

record titulos_row =
  t_idTipo :: int
  TextoTitle :: "string option"
  TextoMetaDescription :: "string option"

text \<open>\<^verbatim>\<open>None if pd.isna(x) else str(x)\<close>: the parameter bound for a text cell.\<close>

definition sql_param :: "string option \<Rightarrow> string option" where
  "sql_param x = (case x of None \<Rightarrow> None | Some s \<Rightarrow> Some s)"

fun update_textos_loop :: "conn \<Rightarrow> textos_row list \<Rightarrow> nat \<Rightarrow> conn \<times> (error + nat)" where
  "update_textos_loop c [] updated = (c, Inr updated)"
| "update_textos_loop c (r # rest) updated =
     (let idt = idTipo r;
          t1 = sql_param (TextoPrimario r);
          t2 = sql_param (TextoSecundario r)
      in case execute c (UpdateTT t1 t2 idt) of
           (c1, Inl e) \<Rightarrow> (c1, Inl e)
         | (c1, Inr n) \<Rightarrow> update_textos_loop c1 rest (updated + n))"

definition update_textos :: "conn \<Rightarrow> textos_row list \<Rightarrow> conn \<times> (error + nat)" where
  "update_textos c df_textos =
     (if df_textos = [] then (c, Inr 0)
      else case update_textos_loop c df_textos 0 of
             (c1, Inl e) \<Rightarrow> (c1, Inl e)
           | (c1, Inr updated) \<Rightarrow> (conn_commit c1, Inr updated))"

fun update_titulos_loop :: "conn \<Rightarrow> titulos_row list \<Rightarrow> nat \<Rightarrow> conn \<times> (error + nat)" where
  "update_titulos_loop c [] updated = (c, Inr updated)"
| "update_titulos_loop c (r # rest) updated =
     (let idt = t_idTipo r;
          ttitle = sql_param (TextoTitle r);
          tmeta = sql_param (TextoMetaDescription r)
      in case execute c (UpdateTL ttitle tmeta idt) of
           (c1, Inl e) \<Rightarrow> (c1, Inl e)
         | (c1, Inr n) \<Rightarrow> update_titulos_loop c1 rest (updated + n))"

definition update_titulos :: "conn \<Rightarrow> titulos_row list \<Rightarrow> conn \<times> (error + nat)" where
  "update_titulos c df_titulos =
     (if df_titulos = [] then (c, Inr 0)
      else case update_titulos_loop c df_titulos 0 of
             (c1, Inl e) \<Rightarrow> (c1, Inl e)
           | (c1, Inr updated) \<Rightarrow> (conn_commit c1, Inr updated))"

section \<open>The spreadsheet and \<^verbatim>\<open>build_frames\<close>\<close>

text \<open>
  The normalised sheet: which of the known columns it has, and its rows. A numeric cell
  is the result of \<^verbatim>\<open>pd.to_numeric(..., errors="coerce")\<close> followed by the integer
  cast: \<open>None\<close> is a blank or non-numeric cell. A text cell is \<open>None\<close> when blank. The
  cells of a column the sheet lacks are never read.
\<close>

datatype column =
    Col_id_tipo | Col_id_cat | Col_id_grupo
  | Col_Texto_Principal | Col_Texto_Secundario | Col_Texto_Title | Col_Texto_Meta_Description

record sheet_row =
  id_tipo :: "int option"
  id_cat :: "int option"
  id_grupo :: "int option"
  Texto_Principal :: "string option"
  Texto_Secundario :: "string option"
  Texto_Title :: "string option"
  Texto_Meta_Description :: "string option"

record dataframe =
  df_columns :: "column list"
  df_rows :: "sheet_row list"

text \<open>\<^verbatim>\<open>df.get(name, pd.Series([None]*len(df)))\<close>, read at one row.\<close>

definition df_get :: "dataframe \<Rightarrow> column \<Rightarrow> (sheet_row \<Rightarrow> string option) \<Rightarrow> sheet_row \<Rightarrow> string option" where
  "df_get df col cell r = (if col \<in> set (df_columns df) then cell r else None)"

text \<open>
  \<^verbatim>\<open>.astype(str).str.slice(0, n)\<close> on a column of Python objects: a blank cell (NaN)
  becomes the text \<^verbatim>\<open>nan\<close> before the slice.
\<close>

definition astype_str_slice :: "nat \<Rightarrow> string option \<Rightarrow> string option" where
  "astype_str_slice n x = Some (take n (case x of None \<Rightarrow> ''nan'' | Some s \<Rightarrow> s))"

definition build_frames :: "dataframe \<Rightarrow> error + textos_row list \<times> titulos_row list" where
  "build_frames df =
     (if Col_id_tipo \<notin> set (df_columns df) then Inl KeyError
      else
        let df_textos =
              List.map_filter
                (\<lambda>r. case id_tipo r of
                        None \<Rightarrow> None
                      | Some i \<Rightarrow>
                          Some \<lparr>idTipo = i,
                                TextoPrimario = df_get df Col_Texto_Principal Texto_Principal r,
                                TextoSecundario = df_get df Col_Texto_Secundario Texto_Secundario r\<rparr>)
                (df_rows df);
            has_title = (Col_Texto_Title \<in> set (df_columns df));
            has_meta = (Col_Texto_Meta_Description \<in> set (df_columns df));
            df_titulos =
              (if has_title \<or> has_meta then
                 List.map_filter
                   (\<lambda>r. case id_tipo r of
                           None \<Rightarrow> None
                         | Some i \<Rightarrow>
                             Some \<lparr>t_idTipo = i,
                                   TextoTitle =
                                     (if has_title then astype_str_slice 80 (Texto_Title r) else None),
                                   TextoMetaDescription =
                                     (if has_meta then astype_str_slice 320 (Texto_Meta_Description r)
                                      else None)\<rparr>)
                   (df_rows df)
               else [])
        in Inr (df_textos, df_titulos))"

section \<open>Batched lookups\<close>

text \<open>
  \<^verbatim>\<open>for i in range(0, len(ids), n): chunk = ids[i:i+n]\<close>; the script always takes
  \<open>n = 1000\<close>.
\<close>

function chunks :: "nat \<Rightarrow> 'a list \<Rightarrow> 'a list list" where
  "chunks n xs = (if n = 0 \<or> xs = [] then [] else take n xs # chunks n (drop n xs))"
  by pat_completeness auto
termination
  by (relation "measure (\<lambda>(n, xs). length xs)") auto

declare chunks.simps [simp del]

text \<open>Order of first appearance, as \<^verbatim>\<open>Series.unique()\<close> and \<^verbatim>\<open>drop_duplicates()\<close> give it.\<close>

definition unique :: "'a list \<Rightarrow> 'a list" where
  "unique xs = rev (remdups (rev xs))"

text \<open>
  \<^verbatim>\<open>fetch_existing_idtipos\<close>: one \<^verbatim>\<open>SELECT idTipo ... WHERE idTipo IN (chunk)\<close> per
  chunk, the results collected in a set. Queries read the store and are not subject to
  the fault plan.
\<close>

definition fetch_existing_idtipos :: "conn \<Rightarrow> int list \<Rightarrow> int set" where
  "fetch_existing_idtipos c ids =
     (if ids = [] then {}
      else fold (\<lambda>chunk out.
                   out \<union> set (map tt_idTipo
                     (filter (\<lambda>r. tt_idTipo r \<in> set chunk) (PUB_TIPOS_TEXTOS (db c)))))
             (chunks 1000 ids) {})"

section \<open>The Content-Mapping Resolver: \<^verbatim>\<open>resolve_idconteudo\<close>\<close>

datatype sql_fn = SQL_MIN | SQL_MAX

text \<open>\<^verbatim>\<open>str.lower()\<close> on the letters A to Z; other characters are kept.\<close>

definition lower_char :: "char \<Rightarrow> char" where
  "lower_char ch =
     (let n = (of_char ch :: nat) in if 65 \<le> n \<and> n \<le> 90 then char_of (n + 32) else ch)"

definition str_lower :: "string \<Rightarrow> string" where
  "str_lower s = map lower_char s"

text \<open>The aggregate of a group with first value \<open>v\<close> and further values \<open>vs\<close>.\<close>

definition sql_agg :: "sql_fn \<Rightarrow> int \<Rightarrow> int list \<Rightarrow> int" where
  "sql_agg fn v vs = (case fn of SQL_MIN \<Rightarrow> fold min vs v | SQL_MAX \<Rightarrow> fold max vs v)"

text \<open>
  \<^verbatim>\<open>SELECT tipo, fn(conteudo) FROM map_table WHERE tipo IN (chunk) AND conteudo IS NOT NULL GROUP BY tipo\<close>:
  one result row per identifier of the chunk that has a non-null content id.
\<close>

definition select_idconteudo :: "sql_fn \<Rightarrow> store \<Rightarrow> int list \<Rightarrow> (int \<times> int) list" where
  "select_idconteudo fn s chunk =
     (let hits = List.map_filter
                   (\<lambda>(t, v). case v of None \<Rightarrow> None
                              | Some w \<Rightarrow> if t \<in> set chunk then Some (t, w) else None)
                   (MAP_TABLE s)
      in concat (map (\<lambda>t. case map snd (filter (\<lambda>(t', w). t' = t) hits) of
                             [] \<Rightarrow> []
                           | v # vs \<Rightarrow> [(t, sql_agg fn v vs)])
                     (unique (map fst hits))))"

definition resolve_idconteudo :: "conn \<Rightarrow> int list \<Rightarrow> string \<Rightarrow> (int \<times> int) list" where
  "resolve_idconteudo c missing_ids pick =
     (let ids = sort (remdups missing_ids) in
      if ids = [] then []
      else
        let fn = (if str_lower pick = ''min'' then SQL_MIN else SQL_MAX) in
        fold (\<lambda>chunk mapping.
                fold (\<lambda>(idt, idc) m. AList.update idt idc m)
                     (select_idconteudo fn (db c) chunk) mapping)
             (chunks 1000 ids) [])"

section \<open>The Identifier Resolver: \<^verbatim>\<open>ensure_id_tipo\<close>\<close>

text \<open>
  The result is the exception raised, or the sheet with its \<^verbatim>\<open>id_tipo\<close> column
  together with the warning written by \<^verbatim>\<open>log_print\<close>: \<open>None\<close> when no warning is
  written, otherwise the list of pairs shown in it.
\<close>

definition ensure_id_tipo ::
  "conn \<Rightarrow> dataframe \<Rightarrow> error + dataframe \<times> (int option \<times> int option) list option" where
  "ensure_id_tipo c df =
     (if Col_id_tipo \<in> set (df_columns df) then Inr (df, None)
      else if \<not> {Col_id_cat, Col_id_grupo} \<subseteq> set (df_columns df) then Inl ValueError
      else
        let cats = sort (unique (List.map_filter id_cat (df_rows df)));
            grupos = sort (unique (List.map_filter id_grupo (df_rows df)))
        in
          if cats = [] \<or> grupos = [] then Inl ValueError
          else
            let fetched = unique (filter (\<lambda>(idc, idg, idt). idc \<in> set cats \<and> idg \<in> set grupos)
                                         (PROCESSADO_BUSCA_TIPOS (db c)));
                mapa = fold (\<lambda>(idc, idg, idt) m. AList.update (idc, idg) idt m) fetched [];
                map_row = (\<lambda>r. case (id_cat r, id_grupo r) of
                                  (Some idc, Some idg) \<Rightarrow> map_of mapa (idc, idg)
                                | _ \<Rightarrow> None);
                df' = df\<lparr>df_columns := df_columns df @ [Col_id_tipo],
                         df_rows := map (\<lambda>r. r\<lparr>id_tipo := map_row r\<rparr>) (df_rows df)\<rparr>;
                faltam = unique (map (\<lambda>r. (id_cat r, id_grupo r))
                                     (filter (\<lambda>r. id_tipo r = None) (df_rows df')))
            in Inr (df', if faltam \<noteq> [] then Some (take 20 faltam) else None))"

section \<open>The orchestrator: \<^verbatim>\<open>main\<close>\<close>

text \<open>
  \<^verbatim>\<open>get_connection\<close> reports the kind of connection it opened for the configured
  \<^verbatim>\<open>MODO\<close>; the script is configured for \<^verbatim>\<open>HOMOLOGACAO\<close>.
\<close>

datatype kind = LOCAL | SQLSERVER

datatype modo = MODO_LOCAL | MODO_HOMOLOGACAO | MODO_PRODUCAO

definition MODO :: modo where
  "MODO = MODO_HOMOLOGACAO"

definition get_connection_kind :: "modo \<Rightarrow> kind" where
  "get_connection_kind m = (if m = MODO_LOCAL then LOCAL else SQLSERVER)"

text \<open>
  A Python \<^verbatim>\<open>float\<close>: a double is the real number it stands for, or one of the three
  special values that \<^verbatim>\<open>type=float\<close> also accepts on the command line.
\<close>

datatype pyfloat = Finite real | PosInf | NegInf | NaN

text \<open>
  \<^verbatim>\<open>len(a) / len(b)\<close>, Python's true division of two non-negative integers: the exact
  quotient rounded to the nearest double, ties to the even significand. \<open>norm_shift\<close>
  finds the scaling that brings the quotient to 53 significant bits and
  \<open>round_half_even\<close> rounds the scaled quotient to an integer. The definition covers
  quotients below \<open>2 ^ 53\<close> with a denominator that is not zero and is small enough for
  the result to be a normal double; the script divides the number of missing identifiers
  by the number of identifiers, which is at most 1, and only when the latter is not zero.
\<close>

function norm_shift :: "nat \<Rightarrow> nat \<Rightarrow> nat \<Rightarrow> nat" where
  "norm_shift m n k =
     (if m = 0 \<or> 2 ^ 52 * n \<le> m * 2 ^ k then k else norm_shift m n (Suc k))"
  by pat_completeness auto
termination
proof (relation "measure (\<lambda>(m, n, k). 2 ^ 52 * n - m * 2 ^ k)")
  show "wf (measure (\<lambda>(m, n, k). 2 ^ 52 * n - m * 2 ^ k))" by simp
next
  fix m n k :: nat
  assume a: "\<not> (m = 0 \<or> 2 ^ 52 * n \<le> m * 2 ^ k)"
  define A where "A = m * 2 ^ k"
  define B where "B = (2::nat) ^ 52 * n"
  have "0 < A" "A < B" using a by (simp_all add: A_def B_def)
  then have "B - 2 * A < B - A" by arith
  then show "((m, n, Suc k), (m, n, k)) \<in> measure (\<lambda>(m, n, k). 2 ^ 52 * n - m * 2 ^ k)"
    by (simp add: A_def B_def mult.assoc mult.left_commute)
qed

declare norm_shift.simps [simp del]

definition round_half_even :: "nat \<Rightarrow> nat \<Rightarrow> nat" where
  "round_half_even a b =
     (let q = a div b; r = a mod b
      in if 2 * r < b then q
         else if b < 2 * r then q + 1
         else if even q then q else q + 1)"

definition py_truediv :: "nat \<Rightarrow> nat \<Rightarrow> real" where
  "py_truediv m n =
     (let k = norm_shift m n 0 in real (round_half_even (m * 2 ^ k) n) / 2 ^ k)"

text \<open>\<^verbatim>\<open>x > t\<close> for a finite double \<open>x\<close>: false against \<^verbatim>\<open>nan\<close> and \<^verbatim>\<open>inf\<close>.\<close>

definition float_gt :: "real \<Rightarrow> pyfloat \<Rightarrow> bool" where
  "float_gt x t =
     (case t of Finite y \<Rightarrow> y < x | PosInf \<Rightarrow> False | NegInf \<Rightarrow> True | NaN \<Rightarrow> False)"

record args =
  auto_seed :: bool
  dry_run :: bool
  max_seed :: int
  abort_if_missing_ratio :: pyfloat
  pick_idconteudo :: string
  default_idconteudo :: "int option"

text \<open>
  How a run ends: at the missing-ratio guard, at the seed cap, after a dry-run seed
  preview, after the update pass (with the two counts it logs), or with an exception.
\<close>

datatype outcome =
    AbortMissingRatio
  | AbortMaxSeed
  | DryRunEnd
  | Concluido nat nat
  | Raised error

definition ids_plan_of :: "dataframe \<Rightarrow> int list" where
  "ids_plan_of df = unique (List.map_filter id_tipo (df_rows df))"

definition faltam_all_of :: "int list \<Rightarrow> int set \<Rightarrow> int list" where
  "faltam_all_of ids_plan existentes = sort (remdups (filter (\<lambda>x. x \<notin> existentes) ids_plan))"

text \<open>Step 9: the two update passes, each skipped when its frame is empty.\<close>

definition run_updates :: "conn \<Rightarrow> textos_row list \<Rightarrow> titulos_row list \<Rightarrow> conn \<times> outcome" where
  "run_updates c df_tt df_tl =
     (case (if df_tt \<noteq> [] then update_textos c df_tt else (c, Inr 0)) of
        (c1, Inl e) \<Rightarrow> (c1, Raised e)
      | (c1, Inr upd_tt) \<Rightarrow>
          (case (if df_tl \<noteq> [] then update_titulos c1 df_tl else (c1, Inr 0)) of
             (c2, Inl e) \<Rightarrow> (c2, Raised e)
           | (c2, Inr upd_tl) \<Rightarrow> (c2, Concluido upd_tt upd_tl)))"

text \<open>Step 8: keep the rows whose identifier is in \<^verbatim>\<open>existentes\<close>, then step 9.\<close>

definition filter_and_update ::
  "conn \<Rightarrow> int set \<Rightarrow> textos_row list \<Rightarrow> titulos_row list \<Rightarrow> conn \<times> outcome" where
  "filter_and_update c existentes df_tt df_tl =
     run_updates c (filter (\<lambda>r. idTipo r \<in> existentes) df_tt)
                   (filter (\<lambda>r. t_idTipo r \<in> existentes) df_tl)"

text \<open>
  The mapping handed to the Seeder: the resolved content ids, with
  \<^verbatim>\<open>--default-idconteudo\<close> (when given) for the identifiers left without one.
\<close>

definition resolve_with_default :: "args \<Rightarrow> conn \<Rightarrow> int list \<Rightarrow> (int \<times> int) list" where
  "resolve_with_default a c faltam_all =
     (let mapa = resolve_idconteudo c faltam_all (pick_idconteudo a);
          sem_mapa = sort (remdups (filter (\<lambda>x. x \<notin> fst ` set mapa) faltam_all))
      in case default_idconteudo a of
           Some d \<Rightarrow>
             if sem_mapa \<noteq> [] then fold (\<lambda>idt m. AList.update idt d m) sem_mapa mapa else mapa
         | None \<Rightarrow> mapa)"

text \<open>
  Step 7 below the cap: seed (or preview), stop after a preview, otherwise check again
  which identifiers exist and go on to steps 8 and 9.
\<close>

definition seed_and_update ::
  "args \<Rightarrow> conn \<Rightarrow> int list \<Rightarrow> int list \<Rightarrow> textos_row list \<Rightarrow> titulos_row list \<Rightarrow>
   conn \<times> outcome" where
  "seed_and_update a c ids_plan faltam_all df_tt df_tl =
     (case seed_missing c (resolve_with_default a c faltam_all) (dry_run a) of
        (c1, Inl e) \<Rightarrow> (c1, Raised e)
      | (c1, Inr inserted) \<Rightarrow>
          if dry_run a then (c1, DryRunEnd)
          else filter_and_update c1 (fetch_existing_idtipos c1 ids_plan) df_tt df_tl)"

text \<open>
  \<^verbatim>\<open>main\<close>, from the connection on: \<open>kind\<close> is what \<^verbatim>\<open>get_connection\<close> returned and
  \<open>df0\<close> the normalised sheet. The missing ratio is the float quotient
  \<^verbatim>\<open>len(faltam_all) / len(ids_plan)\<close>, compared with the threshold as floats compare.
\<close>

definition main :: "kind \<Rightarrow> args \<Rightarrow> conn \<Rightarrow> dataframe \<Rightarrow> conn \<times> outcome" where
  "main kind a c df0 =
     (case (if kind = SQLSERVER then ensure_id_tipo c df0 else Inr (df0, None)) of
        Inl e \<Rightarrow> (c, Raised e)
      | Inr (df, warning) \<Rightarrow>
          (case build_frames df of
             Inl e \<Rightarrow> (c, Raised e)
           | Inr (df_tt, df_tl) \<Rightarrow>
               let ids_plan = ids_plan_of df in
               if kind = SQLSERVER then
                 let existentes = fetch_existing_idtipos c ids_plan;
                     faltam_all = faltam_all_of ids_plan existentes
                 in
                   if ids_plan \<noteq> [] \<and> \<not> auto_seed a \<and>
                      float_gt (py_truediv (length faltam_all) (length ids_plan))
                        (abort_if_missing_ratio a)
                   then (c, AbortMissingRatio)
                   else if auto_seed a \<and> length faltam_all > 0 then
                     if int (length faltam_all) > max_seed a then (c, AbortMaxSeed)
                     else seed_and_update a c ids_plan faltam_all df_tt df_tl
                   else filter_and_update c existentes df_tt df_tl
               else run_updates c df_tt df_tl))"

text \<open>
  The numbers the guards compare: the distinct identifiers of the sheet, and those of
  them that \<^verbatim>\<open>PUB_TIPOS_TEXTOS\<close> lacks when the run starts.
\<close>

definition n_ids :: "dataframe \<Rightarrow> nat" where
  "n_ids df = length (ids_plan_of df)"

definition n_missing :: "conn \<Rightarrow> dataframe \<Rightarrow> nat" where
  "n_missing c df =
     length (faltam_all_of (ids_plan_of df) (fetch_existing_idtipos c (ids_plan_of df)))"

section \<open>Notions used in the statements\<close>

text \<open>The non-null content ids that the mapping table associates with an identifier.\<close>

definition contents_of :: "store \<Rightarrow> int \<Rightarrow> int list" where
  "contents_of s idt = List.map_filter (\<lambda>(t, v). if t = idt then v else None) (MAP_TABLE s)"

text \<open>The rows a chunk's query reads before grouping, and the extremum of a group.\<close>

definition hits_of :: "store \<Rightarrow> int list \<Rightarrow> (int \<times> int) list" where
  "hits_of s chunk =
     List.map_filter
       (\<lambda>(t, v). case v of None \<Rightarrow> None
                  | Some w \<Rightarrow> if t \<in> set chunk then Some (t, w) else None)
       (MAP_TABLE s)"

definition extremum :: "sql_fn \<Rightarrow> int list \<Rightarrow> int" where
  "extremum fn vs = (case fn of SQL_MIN \<Rightarrow> Min (set vs) | SQL_MAX \<Rightarrow> Max (set vs))"

text \<open>
  Whether the pair table knows a (category, group) pair, and the lookup table and row
  mapping that \<^verbatim>\<open>ensure_id_tipo\<close> builds (its \<^verbatim>\<open>mapa\<close> and \<^verbatim>\<open>_map_row\<close>).
\<close>

definition has_mapping :: "store \<Rightarrow> int \<Rightarrow> int \<Rightarrow> bool" where
  "has_mapping s cat grp = (\<exists>t. (cat, grp, t) \<in> set (PROCESSADO_BUSCA_TIPOS s))"

definition mapa_of :: "conn \<Rightarrow> dataframe \<Rightarrow> ((int \<times> int) \<times> int) list" where
  "mapa_of c df =
     (let cats = sort (unique (List.map_filter id_cat (df_rows df)));
          grupos = sort (unique (List.map_filter id_grupo (df_rows df)))
      in fold (\<lambda>(idc, idg, idt) m. AList.update (idc, idg) idt m)
           (unique (filter (\<lambda>(idc, idg, idt). idc \<in> set cats \<and> idg \<in> set grupos)
                           (PROCESSADO_BUSCA_TIPOS (db c)))) [])"

definition map_row_of :: "conn \<Rightarrow> dataframe \<Rightarrow> sheet_row \<Rightarrow> int option" where
  "map_row_of c df r =
     (case (id_cat r, id_grupo r) of
        (Some idc, Some idg) \<Rightarrow> map_of (mapa_of c df) (idc, idg)
      | _ \<Rightarrow> None)"

text \<open>
  The store after the update pass over two frames when no statement fails, and the
  identifiers of the sheet that a store holds (what the second existence check finds).
\<close>

definition apply_updates :: "textos_row list \<Rightarrow> titulos_row list \<Rightarrow> store \<Rightarrow> store" where
  "apply_updates df_tt df_tl s =
     fold (\<lambda>r. update_tl (TextoTitle r) (TextoMetaDescription r) (t_idTipo r)) df_tl
       (fold (\<lambda>r. update_tt (TextoPrimario r) (TextoSecundario r) (idTipo r)) df_tt s)"

definition present_in :: "int list \<Rightarrow> store \<Rightarrow> int \<Rightarrow> bool" where
  "present_in ids s i = (i \<in> set ids \<and> exists_tt s i)"

section \<open>Example data\<close>

text \<open>
  A connection whose titles table has a row for identifier 42, two sheets with an
  \<^verbatim>\<open>id_tipo\<close> column, a sheet with the pair columns only, and the default arguments of
  the command line.
\<close>

definition example_titles_conn :: conn where
  "example_titles_conn =
     \<lparr>db = example_store\<lparr>PUB_TIPOS_TEXTOS_TITULOS :=
            [\<lparr>tl_idTipo = 42, tl_TextoTitle = Some ''t'', tl_TextoMetaDescription = Some ''m'',
              tl_Ativo = 0, tl_IdConteudo = Some 7\<rparr>]\<rparr>,
      tran = None, issued = [], faults = None\<rparr>"

definition blank_row :: sheet_row where
  "blank_row = \<lparr>id_tipo = None, id_cat = None, id_grupo = None, Texto_Principal = None,
                Texto_Secundario = None, Texto_Title = None, Texto_Meta_Description = None\<rparr>"

definition example_pairs_sheet :: dataframe where
  "example_pairs_sheet =
     \<lparr>df_columns = [Col_id_cat, Col_id_grupo, Col_Texto_Principal],
      df_rows = [blank_row\<lparr>id_cat := Some 1, id_grupo := Some 2, Texto_Principal := Some ''A''\<rparr>,
                 blank_row\<lparr>id_cat := Some 5, id_grupo := Some 6, Texto_Principal := Some ''B''\<rparr>]\<rparr>"

definition example_sheet :: dataframe where
  "example_sheet =
     \<lparr>df_columns = [Col_id_tipo, Col_Texto_Principal],
      df_rows = [blank_row\<lparr>id_tipo := Some 42, Texto_Principal := Some ''A''\<rparr>,
                 blank_row\<lparr>id_tipo := Some 99, Texto_Principal := Some ''B''\<rparr>]\<rparr>"

definition example_sheet_existing :: dataframe where
  "example_sheet_existing =
     \<lparr>df_columns = [Col_id_tipo, Col_Texto_Principal],
      df_rows = [blank_row\<lparr>id_tipo := Some 42, Texto_Principal := Some ''A''\<rparr>]\<rparr>"

text \<open>
  The defaults of the command line; the double written \<^verbatim>\<open>0.35\<close> is
  \<open>3152519739159347 / 2 ^ 53\<close>.
\<close>

definition default_args :: args where
  "default_args =
     \<lparr>auto_seed = False, dry_run = False, max_seed = 50, abort_if_missing_ratio = Finite (3152519739159347 / 2 ^ 53),
      pick_idconteudo = ''min'', default_idconteudo = None\<rparr>"

text \<open>
  A connection whose store holds identifiers 42 and 43, and a sheet naming 42, 43 and 99:
  one identifier of three is missing. The double written \<^verbatim>\<open>0.33333333333333331\<close> is
  \<open>6004799503160661 / 2 ^ 54\<close>.
\<close>

definition example_conn_two :: conn where
  "example_conn_two =
     \<lparr>db = example_store\<lparr>PUB_TIPOS_TEXTOS := PUB_TIPOS_TEXTOS example_store @
            [\<lparr>tt_idTipo = 43, tt_TextoPrimario = Some ''old'', tt_TextoSecundario = None,
              tt_Ativo = 0, tt_IdConteudo = Some 7, tt_Header = None\<rparr>]\<rparr>,
      tran = None, issued = [], faults = None\<rparr>"

definition example_sheet_three :: dataframe where
  "example_sheet_three =
     \<lparr>df_columns = [Col_id_tipo, Col_Texto_Principal],
      df_rows = [blank_row\<lparr>id_tipo := Some 42, Texto_Principal := Some ''A''\<rparr>,
                 blank_row\<lparr>id_tipo := Some 43, Texto_Principal := Some ''B''\<rparr>,
                 blank_row\<lparr>id_tipo := Some 99, Texto_Principal := Some ''C''\<rparr>]\<rparr>"

text \<open>A sheet with a title column whose only row leaves the title blank.\<close>

definition example_sheet_title :: dataframe where
  "example_sheet_title =
     \<lparr>df_columns = [Col_id_tipo, Col_Texto_Principal, Col_Texto_Title],
      df_rows = [blank_row\<lparr>id_tipo := Some 42, Texto_Principal := Some ''A''\<rparr>]\<rparr>"

section \<open>The watcher: \<^verbatim>\<open>watch_run.py\<close>\<close>

text \<open>
  The information kept per file is a Python \<^verbatim>\<open>dict\<close> from field names to optional
  strings (JSON \<^verbatim>\<open>null\<close> is \<open>None\<close>). \<^verbatim>\<open>d.get(k)\<close> is \<open>None\<close> for a missing key too.
\<close>

type_synonym info = "(string \<times> string option) list"

definition dict_get :: "info \<Rightarrow> string \<Rightarrow> string option" where
  "dict_get d k = (case map_of d k of None \<Rightarrow> None | Some v \<Rightarrow> v)"

text \<open>Python truth of an optional string: \<^verbatim>\<open>None\<close> and the empty string are false.\<close>

definition truthy :: "string option \<Rightarrow> bool" where
  "truthy x = (case x of None \<Rightarrow> False | Some s \<Rightarrow> s \<noteq> [])"

text \<open>
  \<^verbatim>\<open>should_process(prev_info, current_info)\<close>; \<open>prev_info\<close> is \<^verbatim>\<open>processed.get(fid)\<close>,
  which is \<^verbatim>\<open>None\<close> for a file never recorded.
\<close>

definition should_process :: "info option \<Rightarrow> info \<Rightarrow> bool" where
  "should_process prev_info current_info =
     (case prev_info of
        None \<Rightarrow> True
      | Some prev \<Rightarrow>
          if prev = [] then True
          else
            let prev_md5 = dict_get prev ''md5Checksum'';
                cur_md5 = dict_get current_info ''md5Checksum''
            in if truthy cur_md5 \<and> truthy prev_md5 \<and> cur_md5 \<noteq> prev_md5 then True
               else if \<not> truthy cur_md5
               then dict_get current_info ''modifiedTime'' \<noteq> dict_get prev ''modifiedTime''
               else False)"

text \<open>
  One pass of the loop of \<^verbatim>\<open>main\<close> for the newest file \<open>fid\<close> with information
  \<open>cur_info\<close> (lines 211 to 223). The state is the \<^verbatim>\<open>processed\<close> dictionary and the
  list of files for which \<^verbatim>\<open>run_automacao\<close> was called. What the download and the
  script do is given from outside: either may raise, and the \<^verbatim>\<open>except\<close> of the loop
  then skips the recording.
\<close>

datatype run_result = DownloadFails | ScriptFails | ScriptOk

record watcher =
  processed :: "(string \<times> info) list"
  invoked :: "string list"

definition tick :: "run_result \<Rightarrow> watcher \<Rightarrow> string \<Rightarrow> info \<Rightarrow> watcher" where
  "tick env w fid cur_info =
     (let prev_info = map_of (processed w) fid in
      if should_process prev_info cur_info then
        (case env of
           DownloadFails \<Rightarrow> w
         | ScriptFails \<Rightarrow> w\<lparr>invoked := invoked w @ [fid]\<rparr>
         | ScriptOk \<Rightarrow> w\<lparr>invoked := invoked w @ [fid],
                          processed := AList.update fid cur_info (processed w)\<rparr>)
      else w)"

text \<open>
  The content fingerprint in the words of the specification: the md5 checksum, or the
  modification timestamp when no checksum is available.
\<close>

definition spec_fingerprint :: "info \<Rightarrow> string + string option" where
  "spec_fingerprint d =
     (case dict_get d ''md5Checksum'' of
        Some s \<Rightarrow> if s \<noteq> [] then Inl s else Inr (dict_get d ''modifiedTime'')
      | None \<Rightarrow> Inr (dict_get d ''modifiedTime''))"

definition example_info :: "string \<Rightarrow> info" where
  "example_info md5 =
     [(''name'', Some ''a.xlsx''), (''createdTime'', Some ''t0''),
      (''modifiedTime'', Some ''t1''), (''md5Checksum'', Some md5)]"

definition example_info_no_md5 :: "string \<Rightarrow> info" where
  "example_info_no_md5 mt =
     [(''name'', Some ''a.xlsx''), (''createdTime'', Some ''t0''),
      (''modifiedTime'', Some mt), (''md5Checksum'', None)]"

section \<open>Properties of the Seeder\<close>

lemma execute_no_fault:
  "faults c = None \<Longrightarrow> execute c q = (run_stmt q (c\<lparr>issued := issued c @ [q]\<rparr>), Inr (rowcount q (db c)))"
  by (simp add: execute_def)

lemma run_stmt_faults [simp]: "faults (run_stmt q c) = faults c"
  by (cases q) (simp_all split: option.splits)

lemma run_stmt_tran_row [simp]:
  "q \<notin> {BeginTran, Commit, Rollback} \<Longrightarrow> tran (run_stmt q c) = tran c"
  by (cases q) simp_all

lemma seed_rows_no_fault:
  "faults c = None \<Longrightarrow>
   \<exists>c'. seed_rows c xs = (c', Inr ()) \<and> db c' = seed_store xs (db c) \<and> faults c' = None \<and> tran c' = tran c"
proof (induction xs arbitrary: c)
  case Nil
  then show ?case by (simp add: seed_store_def)
next
  case (Cons p xs)
  obtain idt idc where p: "p = (idt, idc)" by (cases p)
  let ?c1 = "run_stmt (InsertTT idt idc) (c\<lparr>issued := issued c @ [InsertTT idt idc]\<rparr>)"
  let ?c2 = "run_stmt (InsertTL idt idc) (?c1\<lparr>issued := issued ?c1 @ [InsertTL idt idc]\<rparr>)"
  have f2: "faults ?c2 = None" using Cons.prems by simp
  from Cons.IH [OF f2] obtain c' where
    c': "seed_rows ?c2 xs = (c', Inr ())" "db c' = seed_store xs (db ?c2)" "faults c' = None" "tran c' = tran ?c2"
    by blast
  have "seed_rows c (p # xs) = seed_rows ?c2 xs"
    using Cons.prems by (simp add: p execute_no_fault)
  with c' show ?case by (simp add: p seed_store_def)
qed

lemma execute_tran_row:
  "q \<notin> {BeginTran, Commit, Rollback} \<Longrightarrow> execute c q = (c', r) \<Longrightarrow> tran c' = tran c"
  by (auto simp: execute_def Let_def split: option.splits nat.splits)

lemma execute_Inl:
  "execute c q = (c', Inl e) \<Longrightarrow> e = StoreError \<and> faults c' = None \<and> db c' = db c \<and> tran c' = tran c"
  by (auto simp: execute_def Let_def split: option.splits nat.splits)

lemma seed_rows_tran: "seed_rows c xs = (c', r) \<Longrightarrow> tran c' = tran c"
proof (induction c xs rule: seed_rows.induct)
  case (1 c)
  then show ?case by simp
next
  case (2 c idt idc rest)
  show ?case
  proof (cases "execute c (InsertTT idt idc)")
    case (Pair c1 r1)
    have t1: "tran c1 = tran c" using execute_tran_row [OF _ Pair] by simp
    show ?thesis
    proof (cases r1)
      case (Inl e)
      with 2 Pair t1 show ?thesis by simp
    next
      case (Inr n1)
      show ?thesis
      proof (cases "execute c1 (InsertTL idt idc)")
        case P2: (Pair c2 r2)
        have t2: "tran c2 = tran c1" using execute_tran_row [OF _ P2] by simp
        show ?thesis
        proof (cases r2)
          case L2: (Inl e)
          with 2 Pair Inr P2 t1 t2 show ?thesis by simp
        next
          case R2: (Inr n2)
          have "seed_rows c2 rest = (c', r)" using "2.prems" Pair Inr P2 R2 by simp
          from "2.IH" [OF Pair [symmetric] Inr P2 [symmetric] R2 this] t1 t2
          show ?thesis by simp
        qed
      qed
    qed
  qed
qed

lemma seed_rows_Inl: "seed_rows c xs = (c', Inl e) \<Longrightarrow> e = StoreError \<and> faults c' = None"
proof (induction c xs rule: seed_rows.induct)
  case (1 c)
  then show ?case by simp
next
  case (2 c idt idc rest)
  show ?case
  proof (cases "execute c (InsertTT idt idc)")
    case (Pair c1 r1)
    show ?thesis
    proof (cases r1)
      case (Inl e1)
      with 2 Pair execute_Inl [of c "InsertTT idt idc" c1 e1] show ?thesis by simp
    next
      case (Inr n1)
      show ?thesis
      proof (cases "execute c1 (InsertTL idt idc)")
        case P2: (Pair c2 r2)
        show ?thesis
        proof (cases r2)
          case L2: (Inl e2)
          with 2 Pair Inr P2 execute_Inl [of c1 "InsertTL idt idc" c2 e2] show ?thesis by simp
        next
          case R2: (Inr n2)
          have "seed_rows c2 rest = (c', Inl e)" using "2.prems" Pair Inr P2 R2 by simp
          from "2.IH" [OF Pair [symmetric] Inr P2 [symmetric] R2 this]
          show ?thesis by simp
        qed
      qed
    qed
  qed
qed

lemma seed_missing_Inl_db:
  assumes "seed_missing c m False = (c', Inl e)"
  shows "db c' = db c \<and> e = StoreError"
proof (cases "m = []")
  case True
  with assms show ?thesis by (simp add: seed_missing_def)
next
  case False
  obtain c0 r0 where B: "execute c BeginTran = (c0, r0)" by (cases "execute c BeginTran")
  show ?thesis
  proof (cases r0)
    case (Inl e0)
    with assms False B execute_Inl [of c BeginTran c0 e0] show ?thesis
      by (simp add: seed_missing_def)
  next
    case (Inr n0)
    have c0: "tran c0 = Some (db c)" "db c0 = db c"
      using B Inr by (auto simp: execute_def Let_def split: option.splits nat.splits)
    obtain c1 r1 where S: "seed_rows c0 (sort m) = (c1, r1)" by (cases "seed_rows c0 (sort m)")
    have t1: "tran c1 = Some (db c)" using seed_rows_tran [OF S] c0 by simp
    show ?thesis
    proof (cases r1)
      case L1: (Inl e1)
      have f1: "faults c1 = None" "e1 = StoreError" using seed_rows_Inl S L1 by auto
      have "execute c1 Rollback = (c1\<lparr>issued := issued c1 @ [Rollback], db := db c, tran := None\<rparr>, Inr 0)"
        using f1 t1 by (simp add: execute_no_fault)
      with assms False B Inr S L1 f1 show ?thesis
        by (auto simp add: seed_missing_def)
    next
      case R1: (Inr u)
      obtain c2 r2 where C: "execute c1 Commit = (c2, r2)" by (cases "execute c1 Commit")
      show ?thesis
      proof (cases r2)
        case L2: (Inl e2)
        have f2: "faults c2 = None" "e2 = StoreError" "tran c2 = Some (db c)"
          using execute_Inl [of c1 Commit c2 e2] C L2 t1 by auto
        have "execute c2 Rollback = (c2\<lparr>issued := issued c2 @ [Rollback], db := db c, tran := None\<rparr>, Inr 0)"
          using f2 by (simp add: execute_no_fault)
        with assms False B Inr S R1 C L2 f2 show ?thesis
          by (auto simp add: seed_missing_def)
      next
        case R2: (Inr n2)
        with assms False B Inr S R1 C show ?thesis
          by (simp add: seed_missing_def)
      qed
    qed
  qed
qed

lemma execute_Some_Suc:
  "faults c = Some (Suc n) \<Longrightarrow>
   execute c q = (run_stmt q (c\<lparr>issued := issued c @ [q], faults := Some n\<rparr>), Inr (rowcount q (db c)))"
  by (simp add: execute_def)

lemma execute_Some_0:
  "faults c = Some 0 \<Longrightarrow> execute c q = (c\<lparr>issued := issued c @ [q], faults := None\<rparr>, Inl StoreError)"
  by (simp add: execute_def)

lemma seed_rows_fault:
  "faults c = Some n \<Longrightarrow> n < 2 * length xs \<Longrightarrow> \<exists>c'. seed_rows c xs = (c', Inl StoreError)"
proof (induction xs arbitrary: c n)
  case Nil
  then show ?case by simp
next
  case (Cons p xs)
  obtain idt idc where p: "p = (idt, idc)" by (cases p)
  show ?case
  proof (cases n)
    case 0
    with Cons.prems show ?thesis by (simp add: p execute_Some_0)
  next
    case (Suc k)
    note n = Suc
    show ?thesis
    proof (cases k)
      case 0
      with Cons.prems n show ?thesis by (simp add: p execute_Some_Suc execute_Some_0)
    next
      case (Suc j)
      let ?c1 = "run_stmt (InsertTT idt idc) (c\<lparr>issued := issued c @ [InsertTT idt idc], faults := Some k\<rparr>)"
      let ?c2 = "run_stmt (InsertTL idt idc) (?c1\<lparr>issued := issued ?c1 @ [InsertTL idt idc], faults := Some j\<rparr>)"
      have f: "faults ?c2 = Some j" by simp
      have j: "j < 2 * length xs" using Cons.prems n Suc by simp
      have "seed_rows c (p # xs) = seed_rows ?c2 xs"
        using Cons.prems n Suc by (simp add: p execute_Some_Suc)
      with Cons.IH [OF f j] show ?thesis by simp
    qed
  qed
qed

lemma seed_missing_fault:
  assumes "faults c = Some n" and "0 < n" and "n \<le> 2 * length m"
  shows "\<exists>c'. seed_missing c m False = (c', Inl StoreError) \<and> db c' = db c"
proof -
  obtain k where k: "n = Suc k" using assms(2) by (cases n) auto
  from assms k have ne: "m \<noteq> []" by auto
  let ?c0 = "run_stmt BeginTran (c\<lparr>issued := issued c @ [BeginTran], faults := Some k\<rparr>)"
  have B: "execute c BeginTran = (?c0, Inr 0)"
    using assms(1) k by (simp add: execute_Some_Suc)
  have "faults ?c0 = Some k" "k < 2 * length (sort m)" using assms k by simp_all
  from seed_rows_fault [OF this] obtain c1 where S: "seed_rows ?c0 (sort m) = (c1, Inl StoreError)" ..
  have f1: "faults c1 = None" using seed_rows_Inl [OF S] by simp
  have t1: "tran c1 = Some (db c)" using seed_rows_tran [OF S] by simp
  have R: "execute c1 Rollback = (c1\<lparr>issued := issued c1 @ [Rollback], db := db c, tran := None\<rparr>, Inr 0)"
    using f1 t1 by (simp add: execute_no_fault)
  show ?thesis using ne B S R by (simp add: seed_missing_def)
qed

lemma seed_missing_no_fault:
  assumes "faults c = None"
  shows "\<exists>c'. seed_missing c m False = (c', Inr (0, 0)) \<and> faults c' = None \<and>
           db c' = (if m = [] then db c else seed_store (sort m) (db c))"
proof (cases "m = []")
  case True
  with assms show ?thesis by (simp add: seed_missing_def)
next
  case False
  let ?c0 = "run_stmt BeginTran (c\<lparr>issued := issued c @ [BeginTran]\<rparr>)"
  have B: "execute c BeginTran = (?c0, Inr 0)" using assms by (simp add: execute_no_fault)
  have "faults ?c0 = None" using assms by simp
  from seed_rows_no_fault [OF this, of "sort m"] obtain c1 where
    S: "seed_rows ?c0 (sort m) = (c1, Inr ())" and d1: "db c1 = seed_store (sort m) (db ?c0)"
    and f1: "faults c1 = None" by blast
  have C: "execute c1 Commit = (run_stmt Commit (c1\<lparr>issued := issued c1 @ [Commit]\<rparr>), Inr 0)"
    using f1 by (simp add: execute_no_fault)
  show ?thesis using False B S C d1 f1 by (simp add: seed_missing_def)
qed

lemma exists_tt_insert_tt [simp]: "exists_tt (insert_tt idt idc s) k \<longleftrightarrow> exists_tt s k \<or> k = idt"
  by (auto simp: insert_tt_def exists_tt_def)

lemma exists_tl_insert_tt [simp]: "exists_tl (insert_tt idt idc s) k \<longleftrightarrow> exists_tl s k"
  by (auto simp: insert_tt_def exists_tl_def)

lemma exists_tt_insert_tl [simp]: "exists_tt (insert_tl idt idc s) k \<longleftrightarrow> exists_tt s k"
  by (auto simp: insert_tl_def exists_tt_def)

lemma exists_tl_insert_tl [simp]: "exists_tl (insert_tl idt idc s) k \<longleftrightarrow> exists_tl s k \<or> k = idt"
  by (auto simp: insert_tl_def exists_tl_def)

lemma insert_tt_noop: "exists_tt s idt \<Longrightarrow> insert_tt idt idc s = s"
  by (simp add: insert_tt_def)

lemma insert_tl_noop: "exists_tl s idt \<Longrightarrow> insert_tl idt idc s = s"
  by (simp add: insert_tl_def)

lemma exists_seed_store:
  "(exists_tt (seed_store xs s) k \<longleftrightarrow> exists_tt s k \<or> k \<in> fst ` set xs) \<and>
   (exists_tl (seed_store xs s) k \<longleftrightarrow> exists_tl s k \<or> k \<in> fst ` set xs)"
  by (induction xs arbitrary: s) (auto simp: seed_store_def)

lemma seed_store_noop:
  "\<forall>k \<in> fst ` set xs. exists_tt s k \<and> exists_tl s k \<Longrightarrow> seed_store xs s = s"
  by (induction xs arbitrary: s) (auto simp: seed_store_def insert_tt_noop insert_tl_noop)

lemma seed_store_idem: "seed_store xs (seed_store xs s) = seed_store xs s"
  by (rule seed_store_noop) (simp add: exists_seed_store)

lemma exists_tt_rows: "exists_tt s k \<longleftrightarrow> rows_tt s k \<noteq> []"
  by (auto simp: exists_tt_def rows_tt_def filter_empty_conv)

lemma exists_tl_rows: "exists_tl s k \<longleftrightarrow> rows_tl s k \<noteq> []"
  by (auto simp: exists_tl_def rows_tl_def filter_empty_conv)

lemma rows_tt_insert_tt:
  "length (rows_tt (insert_tt idt idc s) k) = (if k = idt \<and> \<not> exists_tt s idt then 1 else length (rows_tt s k))"
  "exists_tt s k \<or> k \<noteq> idt \<Longrightarrow> rows_tt (insert_tt idt idc s) k = rows_tt s k"
  by (auto simp: insert_tt_def rows_tt_def exists_tt_def filter_empty_conv)

lemma rows_tl_insert_tl:
  "length (rows_tl (insert_tl idt idc s) k) = (if k = idt \<and> \<not> exists_tl s idt then 1 else length (rows_tl s k))"
  "exists_tl s k \<or> k \<noteq> idt \<Longrightarrow> rows_tl (insert_tl idt idc s) k = rows_tl s k"
  by (auto simp: insert_tl_def rows_tl_def exists_tl_def filter_empty_conv)

lemma rows_other [simp]:
  "rows_tt (insert_tl idt idc s) k = rows_tt s k"
  "rows_tl (insert_tt idt idc s) k = rows_tl s k"
  by (auto simp: insert_tl_def insert_tt_def rows_tt_def rows_tl_def)

lemma rows_tt_seed_store:
  "(exists_tt s k \<or> k \<notin> fst ` set xs \<longrightarrow> rows_tt (seed_store xs s) k = rows_tt s k) \<and>
   (\<not> exists_tt s k \<and> k \<in> fst ` set xs \<longrightarrow> length (rows_tt (seed_store xs s) k) = 1)"
proof (induction xs arbitrary: s)
  case Nil
  then show ?case by (simp add: seed_store_def)
next
  case (Cons p xs)
  obtain idt idc where p: "p = (idt, idc)" by (cases p)
  let ?s = "insert_tl idt idc (insert_tt idt idc s)"
  have step: "seed_store (p # xs) s = seed_store xs ?s" by (simp add: p seed_store_def)
  have ex: "exists_tt ?s k \<longleftrightarrow> exists_tt s k \<or> k = idt" by simp
  have r: "rows_tt ?s k = rows_tt (insert_tt idt idc s) k" by simp
  show ?case
  proof (cases "exists_tt s k \<or> k \<noteq> idt")
    case True
    then have "rows_tt ?s k = rows_tt s k" using rows_tt_insert_tt(2) r by simp
    with Cons.IH [of ?s] True show ?thesis unfolding step ex by (auto simp: p)
  next
    case False
    then have k: "k = idt" and ne: "\<not> exists_tt s idt" by auto
    have l: "length (rows_tt ?s k) = 1" using rows_tt_insert_tt(1) [of idt idc s idt] ne r by (simp add: k)
    have "exists_tt ?s k" using False by simp
    with Cons.IH [of ?s] have "rows_tt (seed_store xs ?s) k = rows_tt ?s k" by blast
    with l False show ?thesis unfolding step by (auto simp: p)
  qed
qed

lemma rows_tl_seed_store:
  "(exists_tl s k \<or> k \<notin> fst ` set xs \<longrightarrow> rows_tl (seed_store xs s) k = rows_tl s k) \<and>
   (\<not> exists_tl s k \<and> k \<in> fst ` set xs \<longrightarrow> length (rows_tl (seed_store xs s) k) = 1)"
proof (induction xs arbitrary: s)
  case Nil
  then show ?case by (simp add: seed_store_def)
next
  case (Cons p xs)
  obtain idt idc where p: "p = (idt, idc)" by (cases p)
  let ?s = "insert_tl idt idc (insert_tt idt idc s)"
  have step: "seed_store (p # xs) s = seed_store xs ?s" by (simp add: p seed_store_def)
  have ex: "exists_tl ?s k \<longleftrightarrow> exists_tl s k \<or> k = idt" by simp
  show ?case
  proof (cases "exists_tl s k \<or> k \<noteq> idt")
    case True
    then have "rows_tl ?s k = rows_tl s k" using rows_tl_insert_tl(2) [of "insert_tt idt idc s" k idt idc] by auto
    with Cons.IH [of ?s] True show ?thesis unfolding step ex by (auto simp: p)
  next
    case False
    then have k: "k = idt" and ne: "\<not> exists_tl s idt" by auto
    have l: "length (rows_tl ?s k) = 1" using rows_tl_insert_tl(1) [of idt idc "insert_tt idt idc s" idt] ne by (simp add: k)
    have "exists_tl ?s k" using False by simp
    with Cons.IH [of ?s] have "rows_tl (seed_store xs ?s) k = rows_tl ?s k" by blast
    with l False show ?thesis unfolding step by (auto simp: p)
  qed
qed

text \<open>
  Claim C4. Seeding is idempotent: when no statement fails, a live run of
  \<^verbatim>\<open>seed_missing\<close> followed by a second live run with the same mapping leaves the store
  as the first run left it, and both runs return normally. The first run changes nothing
  for an identifier whose row exists already, and creates exactly one row per table for
  an identifier of the mapping that had none: no duplicate rows arise.
\<close>

theorem seed_missing_idempotent:
  assumes "faults c = None"
  shows "\<exists>c1 c2. seed_missing c m False = (c1, Inr (0, 0)) \<and>
           seed_missing c1 m False = (c2, Inr (0, 0)) \<and> db c2 = db c1 \<and>
           (\<forall>k. (exists_tt (db c) k \<or> k \<notin> fst ` set m \<longrightarrow> rows_tt (db c1) k = rows_tt (db c) k) \<and>
                (\<not> exists_tt (db c) k \<and> k \<in> fst ` set m \<longrightarrow> length (rows_tt (db c1) k) = 1) \<and>
                (exists_tl (db c) k \<or> k \<notin> fst ` set m \<longrightarrow> rows_tl (db c1) k = rows_tl (db c) k) \<and>
                (\<not> exists_tl (db c) k \<and> k \<in> fst ` set m \<longrightarrow> length (rows_tl (db c1) k) = 1))"
proof -
  from seed_missing_no_fault [OF assms, of m] obtain c1 where
    r1: "seed_missing c m False = (c1, Inr (0, 0))" and f1: "faults c1 = None"
    and d1: "db c1 = (if m = [] then db c else seed_store (sort m) (db c))" by blast
  from seed_missing_no_fault [OF f1, of m] obtain c2 where
    r2: "seed_missing c1 m False = (c2, Inr (0, 0))"
    and d2: "db c2 = (if m = [] then db c1 else seed_store (sort m) (db c1))" by blast
  have same: "db c2 = db c1" using d1 d2 by (simp add: seed_store_idem)
  have d1': "db c1 = seed_store (sort m) (db c)" using d1 by (cases "m = []") (simp_all add: seed_store_def)
  have rows: "\<forall>k. (exists_tt (db c) k \<or> k \<notin> fst ` set m \<longrightarrow> rows_tt (db c1) k = rows_tt (db c) k) \<and>
                (\<not> exists_tt (db c) k \<and> k \<in> fst ` set m \<longrightarrow> length (rows_tt (db c1) k) = 1) \<and>
                (exists_tl (db c) k \<or> k \<notin> fst ` set m \<longrightarrow> rows_tl (db c1) k = rows_tl (db c) k) \<and>
                (\<not> exists_tl (db c) k \<and> k \<in> fst ` set m \<longrightarrow> length (rows_tl (db c1) k) = 1)"
    using rows_tt_seed_store [of "db c" _ "sort m"] rows_tl_seed_store [of "db c" _ "sort m"]
    unfolding d1' by simp
  from r1 r2 same rows show ?thesis by blast
qed

lemmas eval_simps = seed_missing_def execute_def Let_def insert_tt_def insert_tl_def
  exists_tt_def exists_tl_def example_conn_def example_store_def rows_tt_def rows_tl_def

theorem seed_missing_idempotent_witness:
  "faults (example_conn None) = None \<and>
   (\<exists>c1 c2. seed_missing (example_conn None) [(99, 5), (42, 8)] False = (c1, Inr (0, 0)) \<and>
      seed_missing c1 [(99, 5), (42, 8)] False = (c2, Inr (0, 0)) \<and> db c2 = db c1 \<and>
      length (rows_tt (db c1) 99) = 1 \<and> rows_tt (db c1) 42 = rows_tt example_store 42 \<and>
      length (rows_tl (db c1) 42) = 1)"
proof -
  let ?c = "example_conn None" and ?m = "[(99, 5), (42, 8)] :: (int \<times> int) list"
  have f: "faults ?c = None" by (simp add: example_conn_def)
  have d: "db ?c = example_store" by (simp add: example_conn_def)
  have e: "exists_tt example_store 42" "\<not> exists_tt example_store 99" "\<not> exists_tl example_store 42"
    by (simp_all add: exists_tt_def exists_tl_def example_store_def)
  have m: "(99::int) \<in> fst ` set ?m" "(42::int) \<in> fst ` set ?m" by simp_all
  from seed_missing_idempotent [OF f, of ?m] obtain c1 c2 where
    h: "seed_missing ?c ?m False = (c1, Inr (0, 0))"
       "seed_missing c1 ?m False = (c2, Inr (0, 0))" "db c2 = db c1"
    and a: "\<And>k. (exists_tt (db ?c) k \<or> k \<notin> fst ` set ?m \<longrightarrow> rows_tt (db c1) k = rows_tt (db ?c) k) \<and>
            (\<not> exists_tt (db ?c) k \<and> k \<in> fst ` set ?m \<longrightarrow> length (rows_tt (db c1) k) = 1) \<and>
            (exists_tl (db ?c) k \<or> k \<notin> fst ` set ?m \<longrightarrow> rows_tl (db c1) k = rows_tl (db ?c) k) \<and>
            (\<not> exists_tl (db ?c) k \<and> k \<in> fst ` set ?m \<longrightarrow> length (rows_tl (db c1) k) = 1)"
    by blast
  have r1: "length (rows_tt (db c1) 99) = 1" using a [of 99] e(2) m(1) unfolding d by blast
  have r2: "rows_tt (db c1) 42 = rows_tt example_store 42" using a [of 42] e(1) unfolding d by blast
  have r3: "length (rows_tl (db c1) 42) = 1" using a [of 42] e(3) m(2) unfolding d by blast
  from f h r1 r2 r3 show ?thesis by blast
qed

text \<open>
  Claim C10. Whatever the mapping and the mode, a call of \<^verbatim>\<open>seed_missing\<close> that
  returns, returns the pair (0, 0): the number of rows inserted is not reported.
\<close>

theorem seed_missing_returns_zero:
  "seed_missing c m dry = (c', Inr r) \<Longrightarrow> r = (0, 0)"
  by (auto simp: seed_missing_def Let_def split: if_splits prod.splits sum.splits)

theorem seed_missing_returns_zero_witness:
  "\<exists>c'. seed_missing (example_conn None) [(99, 5)] False = (c', Inr (0, 0)) \<and>
        length (PUB_TIPOS_TEXTOS (db c')) = 2 \<and> length (PUB_TIPOS_TEXTOS_TITULOS (db c')) = 1 \<and>
        length (PUB_TIPOS_TEXTOS (db (example_conn None))) = 1 \<and>
        length (PUB_TIPOS_TEXTOS_TITULOS (db (example_conn None))) = 0"
proof -
  obtain c' r where s: "seed_missing (example_conn None) [(99, 5)] False = (c', Inr r)"
    and l: "length (PUB_TIPOS_TEXTOS (db c')) = 2" "length (PUB_TIPOS_TEXTOS_TITULOS (db c')) = 1"
    by (simp add: eval_simps)
  have "r = (0, 0)" using seed_missing_returns_zero [OF s] .
  with s l show ?thesis by (simp add: example_conn_def example_store_def)
qed

text \<open>
  Claim C5. Live seeding is atomic: whenever \<^verbatim>\<open>seed_missing\<close> raises, the store is
  the one before the call; and a statement failing within the batch does make it raise
  (the error propagates), after the transaction was rolled back.
\<close>

theorem seed_missing_atomic:
  "(\<forall>c' e. seed_missing c m False = (c', Inl e) \<longrightarrow> db c' = db c \<and> e = StoreError) \<and>
   (\<forall>n. faults c = Some n \<and> 0 < n \<and> n \<le> 2 * length m \<longrightarrow>
        (\<exists>c'. seed_missing c m False = (c', Inl StoreError) \<and> db c' = db c))"
  using seed_missing_Inl_db seed_missing_fault by blast

theorem seed_missing_atomic_witness:
  "faults (example_conn (Some 3)) = Some 3 \<and> (0::nat) < 3 \<and> 3 \<le> 2 * length [(99::int, 5::int), (42, 8)] \<and>
   (\<exists>c'. seed_missing (example_conn (Some 3)) [(99, 5), (42, 8)] False = (c', Inl StoreError) \<and>
      db c' = example_store \<and>
      issued c' = [BeginTran, InsertTT 42 8, InsertTL 42 8, InsertTT 99 5, Rollback])"
proof -
  let ?c = "example_conn (Some 3)" and ?m = "[(99, 5), (42, 8)] :: (int \<times> int) list"
  have f: "faults ?c = Some 3 \<and> (0::nat) < 3 \<and> 3 \<le> 2 * length ?m" by (simp add: example_conn_def)
  from seed_missing_atomic [of ?c ?m] f obtain c' where
    s: "seed_missing ?c ?m False = (c', Inl StoreError)" and d: "db c' = db ?c" by blast
  have i: "issued (fst (seed_missing ?c ?m False)) = [BeginTran, InsertTT 42 8, InsertTL 42 8, InsertTT 99 5, Rollback]"
    by (simp add: eval_simps)
  from s d i f show ?thesis by (simp add: example_conn_def)
qed

section \<open>Properties of the Updater\<close>

lemma sql_param_id [simp]: "sql_param x = x"
  by (cases x) (simp_all add: sql_param_def)

lemma length_filter_map_inv:
  "(\<And>x. P (f x) = P x) \<Longrightarrow> length (filter (P \<circ> f) xs) = length (filter P xs)"
  by (induction xs) auto

lemma rows_tt_update_tt [simp]: "length (rows_tt (update_tt t1 t2 k s) j) = length (rows_tt s j)"
  by (simp add: rows_tt_def update_tt_def length_filter_map_inv)

lemma rows_tl_update_tl [simp]: "length (rows_tl (update_tl t1 t2 k s) j) = length (rows_tl s j)"
  by (simp add: rows_tl_def update_tl_def length_filter_map_inv)

lemma update_textos_loop_no_fault:
  "faults c = None \<Longrightarrow>
   \<exists>c'. update_textos_loop c rs n =
           (c', Inr (n + (\<Sum>r\<leftarrow>rs. length (rows_tt (db c) (idTipo r))))) \<and>
        issued c' = issued c @ map (\<lambda>r. UpdateTT (TextoPrimario r) (TextoSecundario r) (idTipo r)) rs \<and>
        db c' = fold (\<lambda>r. update_tt (TextoPrimario r) (TextoSecundario r) (idTipo r)) rs (db c) \<and>
        faults c' = None \<and> tran c' = tran c"
proof (induction rs arbitrary: c n)
  case Nil
  then show ?case by simp
next
  case (Cons r rs)
  let ?q = "UpdateTT (TextoPrimario r) (TextoSecundario r) (idTipo r)"
  let ?c1 = "run_stmt ?q (c\<lparr>issued := issued c @ [?q]\<rparr>)"
  have e: "execute c ?q = (?c1, Inr (length (rows_tt (db c) (idTipo r))))"
    using Cons.prems by (simp add: execute_no_fault rows_tt_def)
  have f1: "faults ?c1 = None" using Cons.prems by simp
  have step: "update_textos_loop c (r # rs) n = update_textos_loop ?c1 rs (n + length (rows_tt (db c) (idTipo r)))"
    using e by (simp add: Let_def)
  have cnt: "(\<Sum>x\<leftarrow>rs. length (rows_tt (db ?c1) (idTipo x))) = (\<Sum>x\<leftarrow>rs. length (rows_tt (db c) (idTipo x)))"
    by simp
  from Cons.IH [OF f1, of "n + length (rows_tt (db c) (idTipo r))"] obtain c' where
    h: "update_textos_loop ?c1 rs (n + length (rows_tt (db c) (idTipo r))) =
          (c', Inr (n + length (rows_tt (db c) (idTipo r)) + (\<Sum>x\<leftarrow>rs. length (rows_tt (db ?c1) (idTipo x)))))"
       "issued c' = issued ?c1 @ map (\<lambda>r. UpdateTT (TextoPrimario r) (TextoSecundario r) (idTipo r)) rs"
       "db c' = fold (\<lambda>r. update_tt (TextoPrimario r) (TextoSecundario r) (idTipo r)) rs (db ?c1)"
       "faults c' = None" "tran c' = tran ?c1"
    by blast
  show ?case using h step unfolding cnt by simp
qed

lemma update_titulos_loop_no_fault:
  "faults c = None \<Longrightarrow>
   \<exists>c'. update_titulos_loop c rs n =
           (c', Inr (n + (\<Sum>r\<leftarrow>rs. length (rows_tl (db c) (t_idTipo r))))) \<and>
        issued c' = issued c @ map (\<lambda>r. UpdateTL (TextoTitle r) (TextoMetaDescription r) (t_idTipo r)) rs \<and>
        db c' = fold (\<lambda>r. update_tl (TextoTitle r) (TextoMetaDescription r) (t_idTipo r)) rs (db c) \<and>
        faults c' = None \<and> tran c' = tran c"
proof (induction rs arbitrary: c n)
  case Nil
  then show ?case by simp
next
  case (Cons r rs)
  let ?q = "UpdateTL (TextoTitle r) (TextoMetaDescription r) (t_idTipo r)"
  let ?c1 = "run_stmt ?q (c\<lparr>issued := issued c @ [?q]\<rparr>)"
  have e: "execute c ?q = (?c1, Inr (length (rows_tl (db c) (t_idTipo r))))"
    using Cons.prems by (simp add: execute_no_fault rows_tl_def)
  have f1: "faults ?c1 = None" using Cons.prems by simp
  have step: "update_titulos_loop c (r # rs) n = update_titulos_loop ?c1 rs (n + length (rows_tl (db c) (t_idTipo r)))"
    using e by (simp add: Let_def)
  have cnt: "(\<Sum>x\<leftarrow>rs. length (rows_tl (db ?c1) (t_idTipo x))) = (\<Sum>x\<leftarrow>rs. length (rows_tl (db c) (t_idTipo x)))"
    by simp
  from Cons.IH [OF f1, of "n + length (rows_tl (db c) (t_idTipo r))"] obtain c' where
    h: "update_titulos_loop ?c1 rs (n + length (rows_tl (db c) (t_idTipo r))) =
          (c', Inr (n + length (rows_tl (db c) (t_idTipo r)) + (\<Sum>x\<leftarrow>rs. length (rows_tl (db ?c1) (t_idTipo x)))))"
       "issued c' = issued ?c1 @ map (\<lambda>r. UpdateTL (TextoTitle r) (TextoMetaDescription r) (t_idTipo r)) rs"
       "db c' = fold (\<lambda>r. update_tl (TextoTitle r) (TextoMetaDescription r) (t_idTipo r)) rs (db ?c1)"
       "faults c' = None" "tran c' = tran ?c1"
    by blast
  show ?case using h step unfolding cnt by simp
qed

lemma update_textos_no_fault:
  assumes "faults c = None"
  shows "\<exists>c'. update_textos c rs = (c', Inr (\<Sum>r\<leftarrow>rs. length (rows_tt (db c) (idTipo r)))) \<and>
        issued c' = issued c @ map (\<lambda>r. UpdateTT (TextoPrimario r) (TextoSecundario r) (idTipo r)) rs \<and>
        db c' = fold (\<lambda>r. update_tt (TextoPrimario r) (TextoSecundario r) (idTipo r)) rs (db c) \<and>
        faults c' = None"
proof (cases "rs = []")
  case True
  with assms show ?thesis by (simp add: update_textos_def)
next
  case False
  from update_textos_loop_no_fault [OF assms, of rs 0] obtain c1 where
    h: "update_textos_loop c rs 0 = (c1, Inr (0 + (\<Sum>r\<leftarrow>rs. length (rows_tt (db c) (idTipo r)))))"
       "issued c1 = issued c @ map (\<lambda>r. UpdateTT (TextoPrimario r) (TextoSecundario r) (idTipo r)) rs"
       "db c1 = fold (\<lambda>r. update_tt (TextoPrimario r) (TextoSecundario r) (idTipo r)) rs (db c)"
       "faults c1 = None"
    by blast
  with False show ?thesis by (simp add: update_textos_def conn_commit_def)
qed

lemma update_titulos_no_fault:
  assumes "faults c = None"
  shows "\<exists>c'. update_titulos c rs = (c', Inr (\<Sum>r\<leftarrow>rs. length (rows_tl (db c) (t_idTipo r)))) \<and>
        issued c' = issued c @ map (\<lambda>r. UpdateTL (TextoTitle r) (TextoMetaDescription r) (t_idTipo r)) rs \<and>
        db c' = fold (\<lambda>r. update_tl (TextoTitle r) (TextoMetaDescription r) (t_idTipo r)) rs (db c) \<and>
        faults c' = None"
proof (cases "rs = []")
  case True
  with assms show ?thesis by (simp add: update_titulos_def)
next
  case False
  from update_titulos_loop_no_fault [OF assms, of rs 0] obtain c1 where
    h: "update_titulos_loop c rs 0 = (c1, Inr (0 + (\<Sum>r\<leftarrow>rs. length (rows_tl (db c) (t_idTipo r)))))"
       "issued c1 = issued c @ map (\<lambda>r. UpdateTL (TextoTitle r) (TextoMetaDescription r) (t_idTipo r)) rs"
       "db c1 = fold (\<lambda>r. update_tl (TextoTitle r) (TextoMetaDescription r) (t_idTipo r)) rs (db c)"
       "faults c1 = None"
    by blast
  with False show ?thesis by (simp add: update_titulos_def conn_commit_def)
qed

lemma in_set_map_if:
  "x \<in> set (map (\<lambda>r. if P r then f r else r) xs) \<Longrightarrow>
   (\<exists>r \<in> set xs. P r \<and> x = f r) \<or> (x \<in> set xs \<and> \<not> P x)"
  by (induction xs) (auto split: if_splits)

lemma update_tt_sets:
  assumes "x \<in> set (PUB_TIPOS_TEXTOS (update_tt t1 t2 idt s))" and "tt_idTipo x = idt"
  shows "tt_TextoPrimario x = t1 \<and> tt_TextoSecundario x = t2 \<and> tt_Ativo x = 1"
proof -
  have "x \<in> set (map (\<lambda>r. if tt_idTipo r = idt
            then r\<lparr>tt_TextoPrimario := t1, tt_TextoSecundario := t2, tt_Ativo := 1\<rparr> else r)
          (PUB_TIPOS_TEXTOS s))"
    using assms(1) unfolding update_tt_def by (simp del: set_map)
  from in_set_map_if [OF this] assms(2) obtain r where
    "x = r\<lparr>tt_TextoPrimario := t1, tt_TextoSecundario := t2, tt_Ativo := 1\<rparr>" by blast
  then show ?thesis by simp
qed

lemma update_tl_sets:
  assumes "x \<in> set (PUB_TIPOS_TEXTOS_TITULOS (update_tl t1 t2 idt s))" and "tl_idTipo x = idt"
  shows "tl_TextoTitle x = t1 \<and> tl_TextoMetaDescription x = t2 \<and> tl_Ativo x = 1"
proof -
  have "x \<in> set (map (\<lambda>r. if tl_idTipo r = idt
            then r\<lparr>tl_TextoTitle := t1, tl_TextoMetaDescription := t2, tl_Ativo := 1\<rparr> else r)
          (PUB_TIPOS_TEXTOS_TITULOS s))"
    using assms(1) unfolding update_tl_def by (simp del: set_map)
  from in_set_map_if [OF this] assms(2) obtain r where
    "x = r\<lparr>tl_TextoTitle := t1, tl_TextoMetaDescription := t2, tl_Ativo := 1\<rparr>" by blast
  then show ?thesis by simp
qed

text \<open>
  The Updater on the frames it is given. When no statement fails, each Updater sends
  exactly one \<^verbatim>\<open>UPDATE\<close> per row of its frame, in order, keyed by the row's identifier
  and carrying the row's two text cells unchanged, so that a blank cell of the frame is
  sent as SQL \<^verbatim>\<open>NULL\<close>; the statement sets both text fields and \<^verbatim>\<open>Ativo = 1\<close> on every
  row it matches. The Updater returns the sum of the row counts, an identifier matching no
  row adding 0 and raising nothing.
\<close>

theorem updater_one_update_per_row:
  assumes "faults c = None"
  shows "(\<exists>c'. update_textos c df_textos =
               (c', Inr (\<Sum>r\<leftarrow>df_textos. length (rows_tt (db c) (idTipo r)))) \<and>
             issued c' = issued c @
               map (\<lambda>r. UpdateTT (TextoPrimario r) (TextoSecundario r) (idTipo r)) df_textos \<and>
             db c' = fold (\<lambda>r. update_tt (TextoPrimario r) (TextoSecundario r) (idTipo r))
                       df_textos (db c)) \<and>
         (\<exists>c'. update_titulos c df_titulos =
               (c', Inr (\<Sum>r\<leftarrow>df_titulos. length (rows_tl (db c) (t_idTipo r)))) \<and>
             issued c' = issued c @
               map (\<lambda>r. UpdateTL (TextoTitle r) (TextoMetaDescription r) (t_idTipo r)) df_titulos \<and>
             db c' = fold (\<lambda>r. update_tl (TextoTitle r) (TextoMetaDescription r) (t_idTipo r))
                       df_titulos (db c)) \<and>
         (\<forall>x \<in> set (PUB_TIPOS_TEXTOS (update_tt t1 t2 idt s)). tt_idTipo x = idt \<longrightarrow>
             tt_TextoPrimario x = t1 \<and> tt_TextoSecundario x = t2 \<and> tt_Ativo x = 1) \<and>
         (\<forall>x \<in> set (PUB_TIPOS_TEXTOS_TITULOS (update_tl t1 t2 idt s)). tl_idTipo x = idt \<longrightarrow>
             tl_TextoTitle x = t1 \<and> tl_TextoMetaDescription x = t2 \<and> tl_Ativo x = 1)"
proof (intro conjI)
  show "\<exists>c'. update_textos c df_textos =
               (c', Inr (\<Sum>r\<leftarrow>df_textos. length (rows_tt (db c) (idTipo r)))) \<and>
             issued c' = issued c @
               map (\<lambda>r. UpdateTT (TextoPrimario r) (TextoSecundario r) (idTipo r)) df_textos \<and>
             db c' = fold (\<lambda>r. update_tt (TextoPrimario r) (TextoSecundario r) (idTipo r))
                       df_textos (db c)"
    using update_textos_no_fault [OF assms, of df_textos] by blast
  show "\<exists>c'. update_titulos c df_titulos =
               (c', Inr (\<Sum>r\<leftarrow>df_titulos. length (rows_tl (db c) (t_idTipo r)))) \<and>
             issued c' = issued c @
               map (\<lambda>r. UpdateTL (TextoTitle r) (TextoMetaDescription r) (t_idTipo r)) df_titulos \<and>
             db c' = fold (\<lambda>r. update_tl (TextoTitle r) (TextoMetaDescription r) (t_idTipo r))
                       df_titulos (db c)"
    using update_titulos_no_fault [OF assms, of df_titulos] by blast
  show "\<forall>x \<in> set (PUB_TIPOS_TEXTOS (update_tt t1 t2 idt s)). tt_idTipo x = idt \<longrightarrow>
             tt_TextoPrimario x = t1 \<and> tt_TextoSecundario x = t2 \<and> tt_Ativo x = 1"
    using update_tt_sets by blast
  show "\<forall>x \<in> set (PUB_TIPOS_TEXTOS_TITULOS (update_tl t1 t2 idt s)). tl_idTipo x = idt \<longrightarrow>
             tl_TextoTitle x = t1 \<and> tl_TextoMetaDescription x = t2 \<and> tl_Ativo x = 1"
    using update_tl_sets by blast
qed

theorem updater_one_update_per_row_witness:
  "faults example_titles_conn = None \<and>
   (\<exists>c'. update_textos example_titles_conn
            [\<lparr>idTipo = 42, TextoPrimario = Some ''A'', TextoSecundario = None\<rparr>,
             \<lparr>idTipo = 77, TextoPrimario = Some ''B'', TextoSecundario = Some ''C''\<rparr>] = (c', Inr 1) \<and>
          issued c' = [UpdateTT (Some ''A'') None 42, UpdateTT (Some ''B'') (Some ''C'') 77] \<and>
          PUB_TIPOS_TEXTOS (db c') =
            [\<lparr>tt_idTipo = 42, tt_TextoPrimario = Some ''A'', tt_TextoSecundario = None,
              tt_Ativo = 1, tt_IdConteudo = Some 7, tt_Header = None\<rparr>]) \<and>
   (\<exists>c'. update_titulos example_titles_conn
            [\<lparr>t_idTipo = 42, TextoTitle = None, TextoMetaDescription = Some ''d''\<rparr>] = (c', Inr 1) \<and>
          issued c' = [UpdateTL None (Some ''d'') 42] \<and>
          PUB_TIPOS_TEXTOS_TITULOS (db c') =
            [\<lparr>tl_idTipo = 42, tl_TextoTitle = None, tl_TextoMetaDescription = Some ''d'',
              tl_Ativo = 1, tl_IdConteudo = Some 7\<rparr>])"
proof -
  let ?c = example_titles_conn
  let ?tt = "[\<lparr>idTipo = 42, TextoPrimario = Some ''A'', TextoSecundario = None\<rparr>,
              \<lparr>idTipo = 77, TextoPrimario = Some ''B'', TextoSecundario = Some ''C''\<rparr>]"
  let ?tl = "[\<lparr>t_idTipo = 42, TextoTitle = None, TextoMetaDescription = Some ''d''\<rparr>]"
  have f: "faults ?c = None" by (simp add: example_titles_conn_def)
  note u = updater_one_update_per_row [OF f, of ?tt ?tl None None 0 "db ?c"]
  from u obtain c1 where
    a: "update_textos ?c ?tt = (c1, Inr (\<Sum>r\<leftarrow>?tt. length (rows_tt (db ?c) (idTipo r))))"
       "issued c1 = issued ?c @ map (\<lambda>r. UpdateTT (TextoPrimario r) (TextoSecundario r) (idTipo r)) ?tt"
       "db c1 = fold (\<lambda>r. update_tt (TextoPrimario r) (TextoSecundario r) (idTipo r)) ?tt (db ?c)"
    by blast
  from u obtain c2 where
    b: "update_titulos ?c ?tl = (c2, Inr (\<Sum>r\<leftarrow>?tl. length (rows_tl (db ?c) (t_idTipo r))))"
       "issued c2 = issued ?c @ map (\<lambda>r. UpdateTL (TextoTitle r) (TextoMetaDescription r) (t_idTipo r)) ?tl"
       "db c2 = fold (\<lambda>r. update_tl (TextoTitle r) (TextoMetaDescription r) (t_idTipo r)) ?tl (db ?c)"
    by blast
  have n1: "(\<Sum>r\<leftarrow>?tt. length (rows_tt (db ?c) (idTipo r))) = 1"
    by (simp add: rows_tt_def example_titles_conn_def example_store_def)
  have n2: "(\<Sum>r\<leftarrow>?tl. length (rows_tl (db ?c) (t_idTipo r))) = 1"
    by (simp add: rows_tl_def example_titles_conn_def example_store_def)
  have d1: "PUB_TIPOS_TEXTOS (db c1) =
            [\<lparr>tt_idTipo = 42, tt_TextoPrimario = Some ''A'', tt_TextoSecundario = None,
              tt_Ativo = 1, tt_IdConteudo = Some 7, tt_Header = None\<rparr>]"
    unfolding a(3) by (simp add: update_tt_def example_titles_conn_def example_store_def)
  have d2: "PUB_TIPOS_TEXTOS_TITULOS (db c2) =
            [\<lparr>tl_idTipo = 42, tl_TextoTitle = None, tl_TextoMetaDescription = Some ''d'',
              tl_Ativo = 1, tl_IdConteudo = Some 7\<rparr>]"
    unfolding b(3) by (simp add: update_tl_def example_titles_conn_def example_store_def)
  have i1: "issued c1 = [UpdateTT (Some ''A'') None 42, UpdateTT (Some ''B'') (Some ''C'') 77]"
    unfolding a(2) by (simp add: example_titles_conn_def)
  have i2: "issued c2 = [UpdateTL None (Some ''d'') 42]"
    unfolding b(2) by (simp add: example_titles_conn_def)
  from a(1) b(1) show ?thesis unfolding n1 n2 using f d1 d2 i1 i2 by blast
qed

section \<open>Properties of the batched lookups and of the Content-Mapping Resolver\<close>

lemma concat_chunks: "0 < n \<Longrightarrow> concat (chunks n xs) = xs"
proof (induction n xs rule: chunks.induct)
  case (1 n xs)
  show ?case
  proof (cases "xs = []")
    case True
    then show ?thesis by (simp add: chunks.simps)
  next
    case False
    with 1 have "concat (chunks n (drop n xs)) = drop n xs" by simp
    with False 1(2) show ?thesis by (subst chunks.simps) simp
  qed
qed

lemma set_unique [simp]: "set (unique xs) = set xs"
  by (simp add: unique_def)

lemma distinct_unique [simp]: "distinct (unique xs)"
  by (simp add: unique_def)

lemma fold_union:
  "fold (\<lambda>x out. out \<union> g x) xs A = A \<union> (\<Union>x \<in> set xs. g x)"
  by (induction xs arbitrary: A) auto

lemma fetch_existing_idtipos_eq:
  "fetch_existing_idtipos c ids = {i \<in> set ids. exists_tt (db c) i}"
proof (cases "ids = []")
  case True
  then show ?thesis by (simp add: fetch_existing_idtipos_def)
next
  case False
  have "(\<Union>ch \<in> set (chunks 1000 ids). {i \<in> set ch. exists_tt (db c) i}) =
        {i \<in> set (concat (chunks 1000 ids)). exists_tt (db c) i}"
    by auto
  also have "\<dots> = {i \<in> set ids. exists_tt (db c) i}" by (simp add: concat_chunks)
  finally have u: "(\<Union>ch \<in> set (chunks 1000 ids). {i \<in> set ch. exists_tt (db c) i}) =
        {i \<in> set ids. exists_tt (db c) i}" .
  have g: "\<And>ch. set (map tt_idTipo (filter (\<lambda>r. tt_idTipo r \<in> set ch) (PUB_TIPOS_TEXTOS (db c)))) =
        {i \<in> set ch. exists_tt (db c) i}"
    by (auto simp: exists_tt_def)
  have "fetch_existing_idtipos c ids =
        {} \<union> (\<Union>ch \<in> set (chunks 1000 ids).
          set (map tt_idTipo (filter (\<lambda>r. tt_idTipo r \<in> set ch) (PUB_TIPOS_TEXTOS (db c)))))"
    using False unfolding fetch_existing_idtipos_def fold_union by (simp only: if_False)
  also have "\<dots> = (\<Union>ch \<in> set (chunks 1000 ids). {i \<in> set ch. exists_tt (db c) i})"
    unfolding g by simp
  finally show ?thesis unfolding u .
qed

lemma sql_agg_Min_Max:
  "sql_agg SQL_MIN v vs = Min (set (v # vs))" "sql_agg SQL_MAX v vs = Max (set (v # vs))"
  by (simp_all only: sql_agg_def Min.set_eq_fold Max.set_eq_fold sql_fn.case)

lemma fold_update_functional:
  "(\<And>k v. (k, v) \<in> set ps \<Longrightarrow> v = f k) \<Longrightarrow>
   map_of (fold (\<lambda>(k, v) m. AList.update k v m) ps m) k =
     (if k \<in> fst ` set ps then Some (f k) else map_of m k)"
proof (induction ps arbitrary: m)
  case Nil
  then show ?case by simp
next
  case (Cons p ps)
  obtain a b where p: "p = (a, b)" by (cases p)
  have b: "b = f a" using Cons.prems [of a b] by (simp add: p)
  have "map_of (fold (\<lambda>(k, v) m. AList.update k v m) ps (AList.update a b m)) k =
        (if k \<in> fst ` set ps then Some (f k) else map_of (AList.update a b m) k)"
    using Cons.IH [of "AList.update a b m"] Cons.prems by simp
  then show ?case by (simp add: p b update_conv')
qed

lemma fold_update_distinct:
  "distinct (map fst m) \<Longrightarrow> distinct (map fst (fold (\<lambda>(k, v) m. AList.update k v m) ps m))"
  by (induction ps arbitrary: m) (auto simp: distinct_update)

lemma hits_group_list:
  "t \<in> set chunk \<Longrightarrow>
   map snd (filter (\<lambda>(t', w). t' = t)
     (List.map_filter (\<lambda>(t, v). case v of None \<Rightarrow> None
                              | Some w \<Rightarrow> if t \<in> set chunk then Some (t, w) else None) tbl)) =
   List.map_filter (\<lambda>(t', v). if t' = t then v else None) tbl"
  by (induction tbl) (auto simp: map_filter_simps split: option.splits if_splits)

lemma hits_group:
  "t \<in> set chunk \<Longrightarrow> map snd (filter (\<lambda>(t', w). t' = t) (hits_of s chunk)) = contents_of s t"
  unfolding hits_of_def contents_of_def by (rule hits_group_list)

lemma hits_keys_list:
  "fst ` set (List.map_filter (\<lambda>(t, v). case v of None \<Rightarrow> None
                              | Some w \<Rightarrow> if t \<in> set chunk then Some (t, w) else None) tbl) =
   {t \<in> set chunk. List.map_filter (\<lambda>(t', v). if t' = t then v else None) tbl \<noteq> []}"
  by (induction tbl) (auto simp: map_filter_simps split: option.splits if_splits)

lemma hits_keys: "fst ` set (hits_of s chunk) = {t \<in> set chunk. contents_of s t \<noteq> []}"
  unfolding hits_of_def contents_of_def by (rule hits_keys_list)

lemma select_idconteudo_alt:
  "select_idconteudo fn s chunk =
     concat (map (\<lambda>t. case map snd (filter (\<lambda>(t', w). t' = t) (hits_of s chunk)) of
                             [] \<Rightarrow> []
                           | v # vs \<Rightarrow> [(t, sql_agg fn v vs)])
                 (unique (map fst (hits_of s chunk))))"
  by (simp add: select_idconteudo_def hits_of_def Let_def)

lemma sql_agg_extremum: "sql_agg fn v vs = extremum fn (v # vs)"
  by (cases fn) (simp_all only: sql_agg_Min_Max extremum_def sql_fn.case)

lemma select_idconteudo_set:
  "(k, v) \<in> set (select_idconteudo fn s chunk) \<longleftrightarrow>
     k \<in> set chunk \<and> contents_of s k \<noteq> [] \<and> v = extremum fn (contents_of s k)"
proof -
  have keys: "set (unique (map fst (hits_of s chunk))) = {t \<in> set chunk. contents_of s t \<noteq> []}"
    using hits_keys [of s chunk] by simp
  have "(k, v) \<in> set (select_idconteudo fn s chunk) \<longleftrightarrow>
        (\<exists>t \<in> {t \<in> set chunk. contents_of s t \<noteq> []}.
           (k, v) \<in> set (case map snd (filter (\<lambda>(t', w). t' = t) (hits_of s chunk)) of
                             [] \<Rightarrow> [] | v # vs \<Rightarrow> [(t, sql_agg fn v vs)]))"
    unfolding select_idconteudo_alt keys [symmetric] by simp
  also have "\<dots> \<longleftrightarrow> (\<exists>t \<in> {t \<in> set chunk. contents_of s t \<noteq> []}.
           (k, v) \<in> set (case contents_of s t of [] \<Rightarrow> [] | v # vs \<Rightarrow> [(t, sql_agg fn v vs)]))"
    by (rule bex_cong) (simp_all add: hits_group)
  also have "\<dots> \<longleftrightarrow> k \<in> set chunk \<and> contents_of s k \<noteq> [] \<and> v = extremum fn (contents_of s k)"
  proof -
    have F: "(k, v) \<in> set (case contents_of s t of [] \<Rightarrow> [] | v # vs \<Rightarrow> [(t, sql_agg fn v vs)]) \<longleftrightarrow>
             contents_of s t \<noteq> [] \<and> k = t \<and> v = extremum fn (contents_of s t)" for t
      by (cases "contents_of s t") (auto simp: sql_agg_extremum)
    show ?thesis unfolding F by auto
  qed
  finally show ?thesis .
qed

lemma select_idconteudo_keys:
  "fst ` set (select_idconteudo fn s chunk) = {t \<in> set chunk. contents_of s t \<noteq> []}"
proof -
  have "\<And>k. k \<in> fst ` set (select_idconteudo fn s chunk) \<longleftrightarrow>
            (\<exists>v. (k, v) \<in> set (select_idconteudo fn s chunk))"
    by force
  then show ?thesis unfolding select_idconteudo_set by auto
qed

lemma resolve_fold:
  "map_of (fold (\<lambda>chunk mapping.
                fold (\<lambda>(idt, idc) m. AList.update idt idc m)
                     (select_idconteudo fn s chunk) mapping) cs m) k =
     (if k \<in> set (concat cs) \<and> contents_of s k \<noteq> []
      then Some (extremum fn (contents_of s k)) else map_of m k)"
proof (induction cs arbitrary: m)
  case Nil
  then show ?case by simp
next
  case (Cons ch cs)
  let ?m1 = "fold (\<lambda>(idt, idc) m. AList.update idt idc m) (select_idconteudo fn s ch) m"
  have m1: "map_of ?m1 k = (if k \<in> set ch \<and> contents_of s k \<noteq> []
                           then Some (extremum fn (contents_of s k)) else map_of m k)"
    using fold_update_functional [of "select_idconteudo fn s ch" "\<lambda>k. extremum fn (contents_of s k)" m k]
    by (simp add: select_idconteudo_set select_idconteudo_keys)
  show ?case using Cons.IH [of ?m1] m1 by auto
qed

lemma resolve_fold_distinct:
  "distinct (map fst m) \<Longrightarrow>
   distinct (map fst (fold (\<lambda>chunk mapping.
                fold (\<lambda>(idt, idc) m. AList.update idt idc m)
                     (select_idconteudo fn s chunk) mapping) cs m))"
  by (induction cs arbitrary: m) (simp_all add: fold_update_distinct)

lemma resolve_idconteudo_map_of:
  "map_of (resolve_idconteudo c missing_ids pick) k =
     (if k \<in> set missing_ids \<and> contents_of (db c) k \<noteq> []
      then Some (extremum (if str_lower pick = ''min'' then SQL_MIN else SQL_MAX)
                   (contents_of (db c) k))
      else None)"
proof (cases "sort (remdups missing_ids) = []")
  case True
  then have "missing_ids = []"
    by (metis set_empty set_remdups set_sort)
  then show ?thesis by (simp add: resolve_idconteudo_def)
next
  case False
  have "set (concat (chunks 1000 (sort (remdups missing_ids)))) = set missing_ids"
    by (simp add: concat_chunks)
  with False show ?thesis
    unfolding resolve_idconteudo_def Let_def by (simp only: if_False resolve_fold map_of.simps)
qed

lemma resolve_idconteudo_distinct: "distinct (map fst (resolve_idconteudo c missing_ids pick))"
  unfolding resolve_idconteudo_def Let_def by (simp add: resolve_fold_distinct)

lemma str_lower_min_max: "str_lower ''min'' = ''min''" "str_lower ''max'' = ''max''"
  by code_simp+

text \<open>
  Claim C7. For an identifier among those asked for that has at least one non-null content
  id in the mapping table, \<^verbatim>\<open>resolve_idconteudo\<close> maps it to the minimum of its non-null
  content ids under policy \<^verbatim>\<open>min\<close> and to their maximum under policy \<^verbatim>\<open>max\<close>, and the
  result holds one entry per identifier. The result is a function of the table alone, so
  it is the same on every run.
\<close>

theorem resolve_idconteudo_extremum:
  assumes "idt \<in> set missing_ids" and "contents_of (db c) idt \<noteq> []"
  shows "map_of (resolve_idconteudo c missing_ids ''min'') idt =
           Some (Min (set (contents_of (db c) idt))) \<and>
         map_of (resolve_idconteudo c missing_ids ''max'') idt =
           Some (Max (set (contents_of (db c) idt))) \<and>
         distinct (map fst (resolve_idconteudo c missing_ids ''min'')) \<and>
         distinct (map fst (resolve_idconteudo c missing_ids ''max''))"
  using assms
  by (simp add: resolve_idconteudo_map_of resolve_idconteudo_distinct str_lower_min_max extremum_def)

theorem resolve_idconteudo_extremum_witness:
  "(99::int) \<in> set [99] \<and> contents_of (db (example_conn None)) 99 = [3, 7, 1] \<and>
   map_of (resolve_idconteudo (example_conn None) [99] ''min'') 99 = Some 1 \<and>
   map_of (resolve_idconteudo (example_conn None) [99] ''max'') 99 = Some 7"
proof -
  have c: "contents_of (db (example_conn None)) 99 = [3, 7, 1]"
    by (simp add: contents_of_def example_conn_def example_store_def map_filter_simps)
  have a: "(99::int) \<in> set [99]" "contents_of (db (example_conn None)) 99 \<noteq> []"
    by (simp_all add: c)
  have m: "Min (set [3, 7, 1 :: int]) = 1" "Max (set [3, 7, 1 :: int]) = 7" by simp_all
  from resolve_idconteudo_extremum [OF a] show ?thesis unfolding c m using a(1) by simp
qed

section \<open>Properties of the Identifier Resolver\<close>

lemma fold_update3_None:
  "map_of (fold (\<lambda>(idc, idg, idt) m. AList.update (idc, idg) idt m) xs m) k = None \<longleftrightarrow>
     map_of m k = None \<and> (\<forall>t. (fst k, snd k, t) \<notin> set xs)"
proof (induction xs arbitrary: m)
  case Nil
  then show ?case by simp
next
  case (Cons x xs)
  obtain a b t where x: "x = (a, b, t)" by (cases x)
  show ?case using Cons.IH [of "AList.update (a, b) t m"]
    by (cases k) (auto simp: x update_conv')
qed

lemma fold_update3_Some:
  "map_of (fold (\<lambda>(idc, idg, idt) m. AList.update (idc, idg) idt m) xs m) k = Some t \<Longrightarrow>
     map_of m k = Some t \<or> (fst k, snd k, t) \<in> set xs"
proof (induction xs arbitrary: m)
  case Nil
  then show ?case by simp
next
  case (Cons x xs)
  obtain a b u where x: "x = (a, b, u)" by (cases x)
  from Cons.prems have "map_of (fold (\<lambda>(idc, idg, idt) m. AList.update (idc, idg) idt m) xs
          (AList.update (a, b) u m)) k = Some t" by (simp add: x)
  from Cons.IH [OF this] show ?case
    by (cases k) (auto simp: x update_conv' split: if_splits)
qed

lemma map_filter_eq_Nil: "List.map_filter f xs = [] \<longleftrightarrow> (\<forall>x \<in> set xs. f x = None)"
  by (induction xs) (auto simp: map_filter_simps split: option.splits)

lemma set_map_filter: "set (List.map_filter f xs) = {y. \<exists>x \<in> set xs. f x = Some y}"
  by (induction xs) (auto simp: map_filter_simps split: option.splits)

lemma unique_eq_Nil [simp]: "unique xs = [] \<longleftrightarrow> xs = []"
  by (simp add: unique_def)

lemma sort_eq_Nil [simp]: "sort xs = [] \<longleftrightarrow> xs = []"
  by (metis length_0_conv length_sort)

lemma ensure_id_tipo_unfold:
  "ensure_id_tipo c df =
     (if Col_id_tipo \<in> set (df_columns df) then Inr (df, None)
      else if \<not> {Col_id_cat, Col_id_grupo} \<subseteq> set (df_columns df) then Inl ValueError
      else if (\<forall>r \<in> set (df_rows df). id_cat r = None) \<or> (\<forall>r \<in> set (df_rows df). id_grupo r = None)
      then Inl ValueError
      else
        let rows' = map (\<lambda>r. r\<lparr>id_tipo := map_row_of c df r\<rparr>) (df_rows df);
            faltam = unique (map (\<lambda>r. (id_cat r, id_grupo r)) (filter (\<lambda>r. id_tipo r = None) rows'))
        in Inr (df\<lparr>df_columns := df_columns df @ [Col_id_tipo], df_rows := rows'\<rparr>,
                if faltam \<noteq> [] then Some (take 20 faltam) else None))"
  unfolding ensure_id_tipo_def mapa_of_def map_row_of_def Let_def
  by (simp add: map_filter_eq_Nil cong: if_cong)

lemma map_row_of_unmapped:
  assumes "r \<in> set (df_rows df)" "id_cat r = Some cat" "id_grupo r = Some grp"
  shows "map_row_of c df r = None \<longleftrightarrow> \<not> has_mapping (db c) cat grp"
    and "map_row_of c df r = Some t \<Longrightarrow> (cat, grp, t) \<in> set (PROCESSADO_BUSCA_TIPOS (db c))"
proof -
  have cat: "cat \<in> set (sort (unique (List.map_filter id_cat (df_rows df))))"
    using assms(1,2) by (auto simp: set_map_filter)
  have grp: "grp \<in> set (sort (unique (List.map_filter id_grupo (df_rows df))))"
    using assms(1,3) by (auto simp: set_map_filter)
  have m: "map_row_of c df r = map_of (mapa_of c df) (cat, grp)"
    using assms(2,3) by (simp add: map_row_of_def)
  show "map_row_of c df r = None \<longleftrightarrow> \<not> has_mapping (db c) cat grp"
    unfolding m mapa_of_def Let_def fold_update3_None has_mapping_def
    using cat grp by auto
  show "map_row_of c df r = Some t \<Longrightarrow> (cat, grp, t) \<in> set (PROCESSADO_BUSCA_TIPOS (db c))"
    unfolding m mapa_of_def Let_def by (drule fold_update3_Some) auto
qed

text \<open>
  Claim C8. On a sheet without the \<^verbatim>\<open>id_tipo\<close> column, \<^verbatim>\<open>ensure_id_tipo\<close> returns
  normally exactly when both \<^verbatim>\<open>id_cat\<close> and \<^verbatim>\<open>id_grupo\<close> are columns of the sheet and
  each holds at least one numeric value, and raises \<^verbatim>\<open>ValueError\<close> otherwise. When it
  returns, every row is kept, unchanged but for its \<^verbatim>\<open>id_tipo\<close> cell; a row whose pair has
  no entry in the pair table gets the blank \<^verbatim>\<open>id_tipo\<close>; and the warning lists the first
  20 distinct unresolved pairs at most. Unresolved rows never make the call fail.
\<close>

theorem ensure_id_tipo_contract:
  assumes "Col_id_tipo \<notin> set (df_columns df)"
  shows
   "((\<exists>res. ensure_id_tipo c df = Inr res) \<longleftrightarrow>
        Col_id_cat \<in> set (df_columns df) \<and> Col_id_grupo \<in> set (df_columns df) \<and>
        (\<exists>r \<in> set (df_rows df). id_cat r \<noteq> None) \<and> (\<exists>r \<in> set (df_rows df). id_grupo r \<noteq> None)) \<and>
    ((\<nexists>res. ensure_id_tipo c df = Inr res) \<longrightarrow> ensure_id_tipo c df = Inl ValueError) \<and>
    (\<forall>df' w. ensure_id_tipo c df = Inr (df', w) \<longrightarrow>
        length (df_rows df') = length (df_rows df) \<and>
        (\<forall>i < length (df_rows df).
           df_rows df' ! i = (df_rows df ! i)\<lparr>id_tipo := id_tipo (df_rows df' ! i)\<rparr> \<and>
           (\<forall>cat grp. id_cat (df_rows df ! i) = Some cat \<and> id_grupo (df_rows df ! i) = Some grp \<and>
                      \<not> has_mapping (db c) cat grp \<longrightarrow> id_tipo (df_rows df' ! i) = None)) \<and>
        w = (let faltam = unique (map (\<lambda>r. (id_cat r, id_grupo r))
                                     (filter (\<lambda>r. id_tipo r = None) (df_rows df')))
             in if faltam \<noteq> [] then Some (take 20 faltam) else None) \<and>
        (\<forall>l. w = Some l \<longrightarrow> length l \<le> 20))"
proof (intro conjI allI impI)
  show "(\<exists>res. ensure_id_tipo c df = Inr res) \<longleftrightarrow>
        Col_id_cat \<in> set (df_columns df) \<and> Col_id_grupo \<in> set (df_columns df) \<and>
        (\<exists>r \<in> set (df_rows df). id_cat r \<noteq> None) \<and> (\<exists>r \<in> set (df_rows df). id_grupo r \<noteq> None)"
    using assms by (auto simp: ensure_id_tipo_unfold Let_def)
next
  assume "\<nexists>res. ensure_id_tipo c df = Inr res"
  then show "ensure_id_tipo c df = Inl ValueError"
    using assms by (auto simp: ensure_id_tipo_unfold Let_def split: if_splits)
next
  fix df' w
  assume ok: "ensure_id_tipo c df = Inr (df', w)"
  define rows' where "rows' = map (\<lambda>r. r\<lparr>id_tipo := map_row_of c df r\<rparr>) (df_rows df)"
  have r': "df_rows df' = rows'"
    and w: "w = (let faltam = unique (map (\<lambda>r. (id_cat r, id_grupo r))
                                     (filter (\<lambda>r. id_tipo r = None) rows'))
             in if faltam \<noteq> [] then Some (take 20 faltam) else None)"
    using ok assms unfolding rows'_def
    by (auto simp: ensure_id_tipo_unfold Let_def split: if_splits)
  show "length (df_rows df') = length (df_rows df)" by (simp add: r' rows'_def)
  show "w = (let faltam = unique (map (\<lambda>r. (id_cat r, id_grupo r))
                                     (filter (\<lambda>r. id_tipo r = None) (df_rows df')))
             in if faltam \<noteq> [] then Some (take 20 faltam) else None)"
    using w by (simp add: r')
  {
    fix l assume "w = Some l"
    then show "length l \<le> 20" using w by (auto simp: Let_def split: if_splits)
  }
  {
    fix i assume i: "i < length (df_rows df)"
    show "df_rows df' ! i = (df_rows df ! i)\<lparr>id_tipo := id_tipo (df_rows df' ! i)\<rparr>"
      using i by (simp add: r' rows'_def)
    fix cat grp
    assume a: "id_cat (df_rows df ! i) = Some cat \<and> id_grupo (df_rows df ! i) = Some grp \<and>
               \<not> has_mapping (db c) cat grp"
    have "map_row_of c df (df_rows df ! i) = None"
      using map_row_of_unmapped(1) [of "df_rows df ! i" df cat grp c] i a by simp
    then show "id_tipo (df_rows df' ! i) = None" using i by (simp add: r' rows'_def)
  }
qed

lemma example_ensure:
  "ensure_id_tipo (example_conn None) example_pairs_sheet =
     Inr (\<lparr>df_columns = [Col_id_cat, Col_id_grupo, Col_Texto_Principal, Col_id_tipo],
           df_rows = [blank_row\<lparr>id_cat := Some 1, id_grupo := Some 2, Texto_Principal := Some ''A'',
                                id_tipo := Some 42\<rparr>,
                      blank_row\<lparr>id_cat := Some 5, id_grupo := Some 6, Texto_Principal := Some ''B''\<rparr>]\<rparr>,
          Some [(Some 5, Some 6)])"
  by (simp add: ensure_id_tipo_def example_pairs_sheet_def blank_row_def example_conn_def
      example_store_def Let_def map_filter_simps unique_def)

theorem ensure_id_tipo_contract_witness:
  "Col_id_tipo \<notin> set (df_columns example_pairs_sheet) \<and>
   (\<exists>df' l. ensure_id_tipo (example_conn None) example_pairs_sheet = Inr (df', Some l) \<and>
      length (df_rows df') = 2 \<and> l = [(Some 5, Some 6)] \<and> length l \<le> 20 \<and>
      map id_tipo (df_rows df') = [Some 42, None]) \<and>
   ensure_id_tipo (example_conn None) (example_pairs_sheet\<lparr>df_columns := [Col_id_cat]\<rparr>) = Inl ValueError"
proof -
  have a: "Col_id_tipo \<notin> set (df_columns example_pairs_sheet)"
    "Col_id_tipo \<notin> set (df_columns (example_pairs_sheet\<lparr>df_columns := [Col_id_cat]\<rparr>))"
    by (simp_all add: example_pairs_sheet_def)
  note t = ensure_id_tipo_contract [OF a(1), of "example_conn None"]
  from t example_ensure have l: "length (df_rows
      \<lparr>df_columns = [Col_id_cat, Col_id_grupo, Col_Texto_Principal, Col_id_tipo],
           df_rows = [blank_row\<lparr>id_cat := Some 1, id_grupo := Some 2, Texto_Principal := Some ''A'',
                                id_tipo := Some 42\<rparr>,
                      blank_row\<lparr>id_cat := Some 5, id_grupo := Some 6, Texto_Principal := Some ''B''\<rparr>]\<rparr>)
       = length (df_rows example_pairs_sheet)"
    and l20: "length [(Some (5::int), Some (6::int))] \<le> 20"
    by blast+
  have n: "\<nexists>res. ensure_id_tipo (example_conn None) (example_pairs_sheet\<lparr>df_columns := [Col_id_cat]\<rparr>) = Inr res"
    using ensure_id_tipo_contract [OF a(2), of "example_conn None"] by simp
  then have e: "ensure_id_tipo (example_conn None) (example_pairs_sheet\<lparr>df_columns := [Col_id_cat]\<rparr>) = Inl ValueError"
    using ensure_id_tipo_contract [OF a(2), of "example_conn None"] by blast
  show ?thesis using a(1) example_ensure l l20 e
    by (simp add: example_pairs_sheet_def blank_row_def)
qed

section \<open>Properties of the orchestrator\<close>

lemma get_connection_kind_MODO: "get_connection_kind MODO = SQLSERVER"
  by (simp add: get_connection_kind_def MODO_def)

lemma length_unique: "length (unique xs) = card (set xs)"
  by (simp add: unique_def length_remdups_card_conv)

lemma n_ids_card: "n_ids df = card {i. \<exists>r \<in> set (df_rows df). id_tipo r = Some i}"
  by (simp add: n_ids_def ids_plan_of_def length_unique set_map_filter)

lemma n_missing_card:
  "n_missing c df = card {i. (\<exists>r \<in> set (df_rows df). id_tipo r = Some i) \<and> \<not> exists_tt (db c) i}"
proof -
  have "set (filter (\<lambda>x. x \<notin> fetch_existing_idtipos c (ids_plan_of df)) (ids_plan_of df)) =
        {i. (\<exists>r \<in> set (df_rows df). id_tipo r = Some i) \<and> \<not> exists_tt (db c) i}"
    by (auto simp: fetch_existing_idtipos_eq ids_plan_of_def set_map_filter)
  then show ?thesis
    by (simp add: n_missing_def faltam_all_of_def length_remdups_card_conv)
qed

lemma ensure_id_tipo_column:
  "ensure_id_tipo c df0 = Inr (df, w) \<Longrightarrow> Col_id_tipo \<in> set (df_columns df)"
  by (auto simp: ensure_id_tipo_unfold Let_def split: if_splits)

lemma build_frames_ok:
  "Col_id_tipo \<in> set (df_columns df) \<Longrightarrow> \<exists>ftt ftl. build_frames df = Inr (ftt, ftl)"
  by (simp add: build_frames_def Let_def)

lemma run_updates_outcome:
  "snd (run_updates c ftt ftl) \<notin> {AbortMissingRatio, AbortMaxSeed, DryRunEnd}"
  by (auto simp: run_updates_def split: prod.splits sum.splits if_splits)

lemma filter_and_update_outcome:
  "snd (filter_and_update c ex ftt ftl) \<notin> {AbortMissingRatio, AbortMaxSeed, DryRunEnd}"
  unfolding filter_and_update_def by (rule run_updates_outcome)

lemma seed_and_update_outcome:
  "snd (seed_and_update a c ids f ftt ftl) \<notin> {AbortMissingRatio, AbortMaxSeed}"
  using filter_and_update_outcome
  by (auto simp: seed_and_update_def split: prod.splits sum.splits if_splits)

lemma main_sqlserver:
  assumes "ensure_id_tipo c df0 = Inr (df, w)" and "build_frames df = Inr (ftt, ftl)"
  shows "main SQLSERVER a c df0 =
     (if n_ids df \<noteq> 0 \<and> \<not> auto_seed a \<and>
         float_gt (py_truediv (n_missing c df) (n_ids df)) (abort_if_missing_ratio a)
      then (c, AbortMissingRatio)
      else if auto_seed a \<and> n_missing c df > 0 then
        if int (n_missing c df) > max_seed a then (c, AbortMaxSeed)
        else seed_and_update a c (ids_plan_of df)
               (faltam_all_of (ids_plan_of df) (fetch_existing_idtipos c (ids_plan_of df))) ftt ftl
      else filter_and_update c (fetch_existing_idtipos c (ids_plan_of df)) ftt ftl)"
  using assms by (simp add: main_def Let_def n_ids_def n_missing_def)

text \<open>
  The float quotient: the number of missing identifiers never exceeds the number of
  identifiers, and the rounded quotient differs from the exact one by at most the exact
  one divided by \<open>2 ^ 53\<close>.
\<close>

lemma n_missing_le_n_ids: "n_missing c df \<le> n_ids df"
proof -
  have "length (remdups (filter (\<lambda>x. x \<notin> fetch_existing_idtipos c (ids_plan_of df)) (ids_plan_of df)))
        \<le> length (filter (\<lambda>x. x \<notin> fetch_existing_idtipos c (ids_plan_of df)) (ids_plan_of df))"
    by (rule length_remdups_leq)
  also have "\<dots> \<le> length (ids_plan_of df)" by (rule length_filter_le)
  finally show ?thesis by (simp add: n_missing_def n_ids_def faltam_all_of_def)
qed

lemma round_half_even_nearest:
  assumes "0 < b"
  shows "\<bar>real (round_half_even a b) - real a / real b\<bar> \<le> 1 / 2"
proof -
  define q where "q = a div b"
  define r where "r = a mod b"
  have a: "a = q * b + r" and r: "r < b" using assms by (simp_all add: q_def r_def)
  have ab: "real a / real b = real q + real r / real b"
    using assms by (simp add: a field_simps)
  have rb: "0 \<le> real r / real b" "real r / real b < 1" using r assms by simp_all
  consider "2 * r < b" | "b < 2 * r" | "2 * r = b" by linarith
  then show ?thesis
  proof cases
    case 1
    then have "round_half_even a b = q" by (simp add: round_half_even_def q_def r_def Let_def)
    moreover have "real r / real b \<le> 1 / 2" using 1 assms by (simp add: field_simps)
    ultimately show ?thesis using rb by (simp add: ab)
  next
    case 2
    then have "round_half_even a b = q + 1" by (simp add: round_half_even_def q_def r_def Let_def)
    moreover have "1 / 2 \<le> real r / real b" using 2 assms by (simp add: field_simps)
    ultimately show ?thesis using rb by (simp add: ab)
  next
    case 3
    then have "real b = 2 * real r" by (metis of_nat_mult of_nat_numeral)
    then have h: "real r / real b = 1 / 2" using assms by simp
    from 3 have "round_half_even a b = q \<or> round_half_even a b = q + 1"
      by (simp add: round_half_even_def q_def r_def Let_def)
    then show ?thesis
    proof
      assume e: "round_half_even a b = q"
      show ?thesis unfolding ab h e by simp
    next
      assume e: "round_half_even a b = q + 1"
      show ?thesis unfolding ab h e by simp
    qed
  qed
qed

lemma norm_shift_post:
  "0 < m \<Longrightarrow> 2 ^ 52 * n \<le> m * 2 ^ norm_shift m n k"
proof (induction m n k rule: norm_shift.induct)
  case (1 m n k)
  show ?case
  proof (cases "2 ^ 52 * n \<le> m * 2 ^ k")
    case True
    then show ?thesis by (subst norm_shift.simps) simp
  next
    case False
    with 1 have "2 ^ 52 * n \<le> m * 2 ^ norm_shift m n (Suc k)" by simp
    with False 1(2) show ?thesis by (subst norm_shift.simps) simp
  qed
qed

lemma py_truediv_error:
  assumes "0 < m" and "0 < n"
  shows "\<bar>py_truediv m n - real m / real n\<bar> \<le> (real m / real n) / 2 ^ 53"
proof -
  define k where "k = norm_shift m n 0"
  have p: "2 ^ 52 * n \<le> m * 2 ^ k" unfolding k_def by (rule norm_shift_post [OF assms(1)])
  have "\<bar>real (round_half_even (m * 2 ^ k) n) - real (m * 2 ^ k) / real n\<bar> \<le> 1 / 2"
    by (rule round_half_even_nearest [OF assms(2)])
  then have "\<bar>real (round_half_even (m * 2 ^ k) n) - real (m * 2 ^ k) / real n\<bar> / 2 ^ k
             \<le> (1 / 2) / 2 ^ k"
    by (intro divide_right_mono) simp_all
  moreover have "\<bar>real (round_half_even (m * 2 ^ k) n) - real (m * 2 ^ k) / real n\<bar> / 2 ^ k
        = \<bar>py_truediv m n - real m / real n\<bar>"
  proof -
    have "py_truediv m n - real m / real n =
          (real (round_half_even (m * 2 ^ k) n) - real (m * 2 ^ k) / real n) / 2 ^ k"
      by (simp add: py_truediv_def k_def [symmetric] diff_divide_distrib)
    then show ?thesis by (simp only: abs_div_pos zero_less_power zero_less_numeral)
  qed
  ultimately have e: "\<bar>py_truediv m n - real m / real n\<bar> \<le> (1 / 2) / 2 ^ k" by simp
  have "real (2 ^ 52 * n) \<le> real (m * 2 ^ k)" using p by (rule of_nat_mono)
  then have "2 ^ 52 * real n \<le> real m * 2 ^ k" by simp
  then have "(1 / 2) / 2 ^ k \<le> (real m / real n) / 2 ^ 53"
    using assms by (simp add: field_simps)
  with e show ?thesis by linarith
qed

lemma py_truediv_examples:
  "py_truediv 1 2 = 1 / 2"
  "py_truediv 1 3 = 6004799503160661 / 2 ^ 54"
  "py_truediv 7 20 = 3152519739159347 / 2 ^ 53"
proof -
  have k: "norm_shift 1 2 0 = 53" "norm_shift 1 3 0 = 54" "norm_shift 7 20 0 = 54"
    by (simp_all add: norm_shift.simps)
  have r: "round_half_even (1 * 2 ^ 53) 2 = 2 ^ 52"
    "round_half_even (1 * 2 ^ 54) 3 = 6004799503160661"
    "round_half_even (7 * 2 ^ 54) 20 = 6305039478318694"
    by (simp_all add: round_half_even_def Let_def)
  have "py_truediv 1 2 = real (round_half_even (1 * 2 ^ 53) 2) / 2 ^ 53"
    unfolding py_truediv_def Let_def k ..
  then show "py_truediv 1 2 = 1 / 2" unfolding r by simp
  have "py_truediv 1 3 = real (round_half_even (1 * 2 ^ 54) 3) / 2 ^ 54"
    unfolding py_truediv_def Let_def k ..
  then show "py_truediv 1 3 = 6004799503160661 / 2 ^ 54" unfolding r by simp
  have "py_truediv 7 20 = real (round_half_even (7 * 2 ^ 54) 20) / 2 ^ 54"
    unfolding py_truediv_def Let_def k ..
  then show "py_truediv 7 20 = 3152519739159347 / 2 ^ 53" unfolding r by simp
qed

lemma py_truediv_Suc_examples:
  "py_truediv (Suc 0) 2 = 1 / 2" "py_truediv (Suc 0) 3 = 6004799503160661 / 2 ^ 54"
  using py_truediv_examples(1,2) by simp_all

lemma py_truediv_zero: "py_truediv 0 n = 0"
  by (simp add: py_truediv_def norm_shift.simps round_half_even_def Let_def)

text \<open>
  Claim C2 compares the exact quotient M / N with the threshold; the script compares
  the float quotient. As amended: on a SQL Server run without \<^verbatim>\<open>--auto-seed\<close> whose sheet
  has N > 0 distinct identifiers, M of which \<^verbatim>\<open>PUB_TIPOS_TEXTOS\<close> lacks, the run ends at
  the missing-ratio guard, with the connection untouched, exactly when the float quotient
  of M by N is greater than the threshold as floats compare; otherwise the run is the
  update pass over the rows whose identifier exists. The float quotient differs from
  M / N by at most M / N divided by \<open>2 ^ 53\<close>.
\<close>

theorem missing_ratio_guard_float:
  assumes "ensure_id_tipo c df0 = Inr (df, w)" and "\<not> auto_seed a" and "0 < n_ids df"
  shows
   "(snd (main SQLSERVER a c df0) = AbortMissingRatio \<longleftrightarrow>
       float_gt (py_truediv (n_missing c df) (n_ids df)) (abort_if_missing_ratio a)) \<and>
    (float_gt (py_truediv (n_missing c df) (n_ids df)) (abort_if_missing_ratio a) \<longrightarrow>
       main SQLSERVER a c df0 = (c, AbortMissingRatio)) \<and>
    (\<not> float_gt (py_truediv (n_missing c df) (n_ids df)) (abort_if_missing_ratio a) \<longrightarrow>
       (\<exists>ftt ftl. build_frames df = Inr (ftt, ftl) \<and>
          main SQLSERVER a c df0 =
            filter_and_update c (fetch_existing_idtipos c (ids_plan_of df)) ftt ftl)) \<and>
    n_ids df = card {i. \<exists>r \<in> set (df_rows df). id_tipo r = Some i} \<and>
    n_missing c df =
      card {i. (\<exists>r \<in> set (df_rows df). id_tipo r = Some i) \<and> \<not> exists_tt (db c) i} \<and>
    \<bar>py_truediv (n_missing c df) (n_ids df) - real (n_missing c df) / real (n_ids df)\<bar>
      \<le> (real (n_missing c df) / real (n_ids df)) / 2 ^ 53"
proof -
  let ?g = "float_gt (py_truediv (n_missing c df) (n_ids df)) (abort_if_missing_ratio a)"
  from build_frames_ok [OF ensure_id_tipo_column [OF assms(1)]] obtain ftt ftl where
    b: "build_frames df = Inr (ftt, ftl)" by blast
  note m = main_sqlserver [OF assms(1) b, of a]
  have 1: "?g \<Longrightarrow> main SQLSERVER a c df0 = (c, AbortMissingRatio)"
    using m assms(2,3) by simp
  have 2: "\<not> ?g \<Longrightarrow> main SQLSERVER a c df0 =
             filter_and_update c (fetch_existing_idtipos c (ids_plan_of df)) ftt ftl"
    using m assms(2,3) by simp
  have 3: "snd (main SQLSERVER a c df0) = AbortMissingRatio \<longleftrightarrow> ?g"
  proof (cases ?g)
    case True
    with 1 show ?thesis by simp
  next
    case False
    then have "snd (main SQLSERVER a c df0) \<noteq> AbortMissingRatio"
      using 2 filter_and_update_outcome [of c "fetch_existing_idtipos c (ids_plan_of df)" ftt ftl]
      by simp
    with False show ?thesis by simp
  qed
  have 4: "\<bar>py_truediv (n_missing c df) (n_ids df) - real (n_missing c df) / real (n_ids df)\<bar>
      \<le> (real (n_missing c df) / real (n_ids df)) / 2 ^ 53"
  proof (cases "n_missing c df = 0")
    case True
    then show ?thesis by (simp add: py_truediv_zero)
  next
    case False
    then show ?thesis using py_truediv_error [of "n_missing c df" "n_ids df"] assms(3) by simp
  qed
  show ?thesis using 1 2 3 4 b n_ids_card [of df] n_missing_card [of c df] by blast
qed

lemma example_counts:
  "n_ids example_sheet = 2" "n_missing (example_conn f) example_sheet = 1"
  "n_ids example_sheet_existing = 1" "n_missing (example_conn f) example_sheet_existing = 0"
  by (simp_all add: n_ids_def n_missing_def ids_plan_of_def faltam_all_of_def
      fetch_existing_idtipos_eq example_sheet_def example_sheet_existing_def blank_row_def
      unique_def map_filter_simps exists_tt_def example_conn_def example_store_def)

lemma example_ensure_id:
  "ensure_id_tipo c example_sheet = Inr (example_sheet, None)"
  "ensure_id_tipo c example_sheet_existing = Inr (example_sheet_existing, None)"
  by (simp_all add: ensure_id_tipo_def example_sheet_def example_sheet_existing_def)

lemma example_frames:
  "build_frames example_sheet =
     Inr ([\<lparr>idTipo = 42, TextoPrimario = Some ''A'', TextoSecundario = None\<rparr>,
           \<lparr>idTipo = 99, TextoPrimario = Some ''B'', TextoSecundario = None\<rparr>], [])"
  "build_frames example_sheet_existing =
     Inr ([\<lparr>idTipo = 42, TextoPrimario = Some ''A'', TextoSecundario = None\<rparr>], [])"
  by (simp_all add: build_frames_def example_sheet_def example_sheet_existing_def blank_row_def
      Let_def map_filter_simps df_get_def)

lemma example_fetch:
  "fetch_existing_idtipos (example_conn f) (ids_plan_of example_sheet) = {42}"
  "fetch_existing_idtipos (example_conn f) (ids_plan_of example_sheet_existing) = {42}"
  by (auto simp add: fetch_existing_idtipos_eq ids_plan_of_def example_sheet_def
      example_sheet_existing_def blank_row_def unique_def map_filter_simps exists_tt_def
      example_conn_def example_store_def)

lemma example_update_42:
  "filter_and_update (example_conn None) {42}
     [\<lparr>idTipo = 42, TextoPrimario = Some ''A'', TextoSecundario = None\<rparr>,
      \<lparr>idTipo = 99, TextoPrimario = Some ''B'', TextoSecundario = None\<rparr>] [] =
   (\<lparr>db = example_store\<lparr>PUB_TIPOS_TEXTOS :=
            [\<lparr>tt_idTipo = 42, tt_TextoPrimario = Some ''A'', tt_TextoSecundario = None,
              tt_Ativo = 1, tt_IdConteudo = Some 7, tt_Header = None\<rparr>]\<rparr>,
      tran = None, issued = [UpdateTT (Some ''A'') None 42], faults = None\<rparr>, Concluido 1 0)"
  "filter_and_update (example_conn None) {42}
     [\<lparr>idTipo = 42, TextoPrimario = Some ''A'', TextoSecundario = None\<rparr>] [] =
   (\<lparr>db = example_store\<lparr>PUB_TIPOS_TEXTOS :=
            [\<lparr>tt_idTipo = 42, tt_TextoPrimario = Some ''A'', tt_TextoSecundario = None,
              tt_Ativo = 1, tt_IdConteudo = Some 7, tt_Header = None\<rparr>]\<rparr>,
      tran = None, issued = [UpdateTT (Some ''A'') None 42], faults = None\<rparr>, Concluido 1 0)"
  by (simp_all add: filter_and_update_def run_updates_def update_textos_def execute_def Let_def
      update_tt_def conn_commit_def example_conn_def example_store_def)

lemma example_three:
  "n_ids example_sheet_three = 3" "n_missing example_conn_two example_sheet_three = 1"
  "ensure_id_tipo c example_sheet_three = Inr (example_sheet_three, None)"
  "build_frames example_sheet_three =
     Inr ([\<lparr>idTipo = 42, TextoPrimario = Some ''A'', TextoSecundario = None\<rparr>,
           \<lparr>idTipo = 43, TextoPrimario = Some ''B'', TextoSecundario = None\<rparr>,
           \<lparr>idTipo = 99, TextoPrimario = Some ''C'', TextoSecundario = None\<rparr>], [])"
  "fetch_existing_idtipos example_conn_two (ids_plan_of example_sheet_three) = {42, 43}"
  by (auto simp add: n_ids_def n_missing_def ids_plan_of_def faltam_all_of_def
      fetch_existing_idtipos_eq example_sheet_three_def blank_row_def ensure_id_tipo_def
      build_frames_def Let_def df_get_def
      unique_def map_filter_simps exists_tt_def example_conn_two_def example_store_def)

lemma example_three_update:
  "filter_and_update example_conn_two {42, 43}
     [\<lparr>idTipo = 42, TextoPrimario = Some ''A'', TextoSecundario = None\<rparr>,
      \<lparr>idTipo = 43, TextoPrimario = Some ''B'', TextoSecundario = None\<rparr>,
      \<lparr>idTipo = 99, TextoPrimario = Some ''C'', TextoSecundario = None\<rparr>] [] =
   (\<lparr>db = example_store\<lparr>PUB_TIPOS_TEXTOS :=
            [\<lparr>tt_idTipo = 42, tt_TextoPrimario = Some ''A'', tt_TextoSecundario = None,
              tt_Ativo = 1, tt_IdConteudo = Some 7, tt_Header = None\<rparr>,
             \<lparr>tt_idTipo = 43, tt_TextoPrimario = Some ''B'', tt_TextoSecundario = None,
              tt_Ativo = 1, tt_IdConteudo = Some 7, tt_Header = None\<rparr>]\<rparr>,
      tran = None, issued = [UpdateTT (Some ''A'') None 42, UpdateTT (Some ''B'') None 43],
      faults = None\<rparr>, Concluido 2 0)"
  by (simp add: filter_and_update_def run_updates_def update_textos_def execute_def Let_def
      update_tt_def conn_commit_def example_conn_two_def example_store_def)

text \<open>
  With one identifier of three missing and the threshold \<^verbatim>\<open>0.33333333333333331\<close>, the
  exact quotient 1 / 3 is greater than the threshold, yet the float quotient equals it:
  the run does not stop at the guard and sends two updates.
\<close>

theorem missing_ratio_exact_counterexample:
  "\<not> auto_seed (default_args\<lparr>abort_if_missing_ratio := Finite (6004799503160661 / 2 ^ 54)\<rparr>) \<and>
   n_ids example_sheet_three = 3 \<and> n_missing example_conn_two example_sheet_three = 1 \<and>
   (6004799503160661 / 2 ^ 54 :: real)
     < real (n_missing example_conn_two example_sheet_three) / real (n_ids example_sheet_three) \<and>
   main SQLSERVER (default_args\<lparr>abort_if_missing_ratio := Finite (6004799503160661 / 2 ^ 54)\<rparr>)
     example_conn_two example_sheet_three =
   (\<lparr>db = example_store\<lparr>PUB_TIPOS_TEXTOS :=
            [\<lparr>tt_idTipo = 42, tt_TextoPrimario = Some ''A'', tt_TextoSecundario = None,
              tt_Ativo = 1, tt_IdConteudo = Some 7, tt_Header = None\<rparr>,
             \<lparr>tt_idTipo = 43, tt_TextoPrimario = Some ''B'', tt_TextoSecundario = None,
              tt_Ativo = 1, tt_IdConteudo = Some 7, tt_Header = None\<rparr>]\<rparr>,
      tran = None, issued = [UpdateTT (Some ''A'') None 42, UpdateTT (Some ''B'') None 43],
      faults = None\<rparr>, Concluido 2 0)"
proof -
  let ?a = "default_args\<lparr>abort_if_missing_ratio := Finite (6004799503160661 / 2 ^ 54)\<rparr>"
  have g: "\<not> float_gt (py_truediv 1 3) (abort_if_missing_ratio ?a)"
    by (simp add: float_gt_def py_truediv_Suc_examples)
  have m: "main SQLSERVER ?a example_conn_two example_sheet_three =
           filter_and_update example_conn_two {42, 43}
             [\<lparr>idTipo = 42, TextoPrimario = Some ''A'', TextoSecundario = None\<rparr>,
              \<lparr>idTipo = 43, TextoPrimario = Some ''B'', TextoSecundario = None\<rparr>,
              \<lparr>idTipo = 99, TextoPrimario = Some ''C'', TextoSecundario = None\<rparr>] []"
    using g
    by (simp add: main_sqlserver [OF example_three(3) example_three(4)] example_three(1,2,5)
        default_args_def)
  show ?thesis unfolding m example_three_update
    by (simp add: example_three(1,2) default_args_def)
qed

theorem missing_ratio_guard_float_witness:
  "ensure_id_tipo (example_conn None) example_sheet = Inr (example_sheet, None) \<and>
   \<not> auto_seed default_args \<and> 0 < n_ids example_sheet \<and>
   py_truediv (n_missing (example_conn None) example_sheet) (n_ids example_sheet) = 1 / 2 \<and>
   main SQLSERVER default_args (example_conn None) example_sheet =
     (example_conn None, AbortMissingRatio) \<and>
   (\<exists>c'. main SQLSERVER (default_args\<lparr>abort_if_missing_ratio := Finite (1 / 2)\<rparr>)
            (example_conn None) example_sheet = (c', Concluido 1 0) \<and>
         issued c' = [UpdateTT (Some ''A'') None 42])"
proof -
  let ?c = "example_conn None"
  let ?b = "default_args\<lparr>abort_if_missing_ratio := Finite (1 / 2)\<rparr>"
  have h: "ensure_id_tipo ?c example_sheet = Inr (example_sheet, None)"
    "\<not> auto_seed default_args" "\<not> auto_seed ?b" "0 < n_ids example_sheet"
    by (simp_all add: example_ensure_id default_args_def example_counts)
  have r: "py_truediv (n_missing ?c example_sheet) (n_ids example_sheet) = 1 / 2"
    by (simp add: example_counts py_truediv_Suc_examples)
  have gt: "float_gt (py_truediv (n_missing ?c example_sheet) (n_ids example_sheet))
              (abort_if_missing_ratio default_args)"
    unfolding r by (simp add: default_args_def float_gt_def)
  have le: "\<not> float_gt (py_truediv (n_missing ?c example_sheet) (n_ids example_sheet))
              (abort_if_missing_ratio ?b)"
    unfolding r by (simp add: float_gt_def)
  have 1: "main SQLSERVER default_args ?c example_sheet = (?c, AbortMissingRatio)"
    using missing_ratio_guard_float [OF h(1) h(2) h(4)] gt by blast
  from missing_ratio_guard_float [OF h(1) h(3) h(4)] le obtain ftt ftl where
    b: "build_frames example_sheet = Inr (ftt, ftl)" and
    mm: "main SQLSERVER ?b ?c example_sheet =
       filter_and_update ?c (fetch_existing_idtipos ?c (ids_plan_of example_sheet)) ftt ftl"
    by blast
  from b have e: "ftt = [\<lparr>idTipo = 42, TextoPrimario = Some ''A'', TextoSecundario = None\<rparr>,
           \<lparr>idTipo = 99, TextoPrimario = Some ''B'', TextoSecundario = None\<rparr>]" "ftl = []"
    by (simp_all add: example_frames)
  have 2: "\<exists>c'. main SQLSERVER ?b ?c example_sheet = (c', Concluido 1 0) \<and>
         issued c' = [UpdateTT (Some ''A'') None 42]"
    unfolding mm e example_fetch example_update_42(1) by simp
  from h r 1 2 show ?thesis by blast
qed

lemma exists_tt_update [simp]:
  "exists_tt (update_tt t1 t2 k s) i = exists_tt s i"
  "exists_tt (update_tl t1 t2 k s) i = exists_tt s i"
proof -
  have "length (rows_tt (update_tt t1 t2 k s) i) = length (rows_tt s i)" by simp
  then show "exists_tt (update_tt t1 t2 k s) i = exists_tt s i"
    unfolding exists_tt_rows by (metis length_0_conv)
  show "exists_tt (update_tl t1 t2 k s) i = exists_tt s i"
    by (simp add: exists_tt_def update_tl_def)
qed

lemma update_if_nonempty:
  "(if ftt \<noteq> [] then update_textos c ftt else (c, Inr 0)) = update_textos c ftt"
  "(if ftl \<noteq> [] then update_titulos c ftl else (c, Inr 0)) = update_titulos c ftl"
  by (simp_all add: update_textos_def update_titulos_def)

lemma rows_tl_update_tt [simp]: "rows_tl (update_tt t1 t2 k s) i = rows_tl s i"
  by (simp add: rows_tl_def update_tt_def)

lemma exists_tt_fold_tt [simp]:
  "exists_tt (fold (\<lambda>r. update_tt (TextoPrimario r) (TextoSecundario r) (idTipo r)) rs s) i =
   exists_tt s i"
  by (induction rs arbitrary: s) simp_all

lemma exists_tt_fold_tl [simp]:
  "exists_tt (fold (\<lambda>r. update_tl (TextoTitle r) (TextoMetaDescription r) (t_idTipo r)) rs s) i =
   exists_tt s i"
  by (induction rs arbitrary: s) simp_all

lemma exists_tt_apply_updates [simp]: "exists_tt (apply_updates ftt ftl s) i = exists_tt s i"
  by (simp add: apply_updates_def)

lemma run_updates_no_fault:
  assumes "faults c = None"
  shows "\<exists>c' n1 n2. run_updates c ftt ftl = (c', Concluido n1 n2) \<and>
           db c' = apply_updates ftt ftl (db c) \<and>
           issued c' = issued c @
             map (\<lambda>r. UpdateTT (TextoPrimario r) (TextoSecundario r) (idTipo r)) ftt @
             map (\<lambda>r. UpdateTL (TextoTitle r) (TextoMetaDescription r) (t_idTipo r)) ftl"
proof -
  from update_textos_no_fault [OF assms, of ftt] obtain c1 where
    1: "update_textos c ftt = (c1, Inr (\<Sum>r\<leftarrow>ftt. length (rows_tt (db c) (idTipo r))))"
       "issued c1 = issued c @ map (\<lambda>r. UpdateTT (TextoPrimario r) (TextoSecundario r) (idTipo r)) ftt"
       "db c1 = fold (\<lambda>r. update_tt (TextoPrimario r) (TextoSecundario r) (idTipo r)) ftt (db c)"
       "faults c1 = None"
    by blast
  from update_titulos_no_fault [OF 1(4), of ftl] obtain c2 where
    2: "update_titulos c1 ftl = (c2, Inr (\<Sum>r\<leftarrow>ftl. length (rows_tl (db c1) (t_idTipo r))))"
       "issued c2 = issued c1 @ map (\<lambda>r. UpdateTL (TextoTitle r) (TextoMetaDescription r) (t_idTipo r)) ftl"
       "db c2 = fold (\<lambda>r. update_tl (TextoTitle r) (TextoMetaDescription r) (t_idTipo r)) ftl (db c1)"
    by blast
  show ?thesis
    by (simp add: run_updates_def update_if_nonempty 1 2 apply_updates_def)
qed

lemma filter_and_update_no_fault:
  assumes "faults c = None"
  shows "\<exists>c' n1 n2. filter_and_update c (fetch_existing_idtipos c0 ids) ftt ftl =
             (c', Concluido n1 n2) \<and>
           db c' = apply_updates (filter (\<lambda>r. present_in ids (db c0) (idTipo r)) ftt)
                     (filter (\<lambda>r. present_in ids (db c0) (t_idTipo r)) ftl) (db c)"
proof -
  have f: "(\<lambda>r. idTipo r \<in> fetch_existing_idtipos c0 ids) = (\<lambda>r. present_in ids (db c0) (idTipo r))"
    "(\<lambda>r. t_idTipo r \<in> fetch_existing_idtipos c0 ids) = (\<lambda>r. present_in ids (db c0) (t_idTipo r))"
    by (simp_all add: fetch_existing_idtipos_eq present_in_def)
  show ?thesis
    unfolding filter_and_update_def f
    using run_updates_no_fault [OF assms] by blast
qed

lemma fold_update_default_keys:
  "fst ` set (fold (\<lambda>idt m. AList.update idt d m) ks m) = fst ` set m \<union> set ks"
  by (induction ks arbitrary: m) (auto simp: dom_update)

lemma resolve_idconteudo_keys:
  "fst ` set (resolve_idconteudo c ms p) \<subseteq> set ms"
proof
  fix k assume "k \<in> fst ` set (resolve_idconteudo c ms p)"
  then have "map_of (resolve_idconteudo c ms p) k \<noteq> None"
    by (simp add: map_of_eq_None_iff)
  then show "k \<in> set ms" by (simp add: resolve_idconteudo_map_of split: if_splits)
qed

lemma resolve_with_default_keys:
  "fst ` set (resolve_with_default a c fa) \<subseteq> set fa"
  using resolve_idconteudo_keys [of c fa "pick_idconteudo a"]
  by (auto simp: resolve_with_default_def Let_def fold_update_default_keys split: option.splits)

lemma faltam_not_exists:
  "k \<in> set (faltam_all_of ids (fetch_existing_idtipos c ids)) \<Longrightarrow> \<not> exists_tt (db c) k"
  by (auto simp: faltam_all_of_def fetch_existing_idtipos_eq)

text \<open>
  Claim C1 says that no run with \<^verbatim>\<open>--dry-run\<close> changes the store. The script looks at the
  flag only inside the seeding branch: the run below has \<^verbatim>\<open>--auto-seed --dry-run\<close>, its
  sheet names one identifier, which exists, and the run sends an \<^verbatim>\<open>UPDATE\<close> that
  changes the store.
\<close>

theorem main_dry_run_writes:
  "dry_run (default_args\<lparr>auto_seed := True, dry_run := True\<rparr>) \<and>
   main SQLSERVER (default_args\<lparr>auto_seed := True, dry_run := True\<rparr>) (example_conn None)
        example_sheet_existing =
     (\<lparr>db = example_store\<lparr>PUB_TIPOS_TEXTOS :=
            [\<lparr>tt_idTipo = 42, tt_TextoPrimario = Some ''A'', tt_TextoSecundario = None,
              tt_Ativo = 1, tt_IdConteudo = Some 7, tt_Header = None\<rparr>]\<rparr>,
       tran = None, issued = [UpdateTT (Some ''A'') None 42], faults = None\<rparr>, Concluido 1 0) \<and>
   db (fst (main SQLSERVER (default_args\<lparr>auto_seed := True, dry_run := True\<rparr>) (example_conn None)
        example_sheet_existing)) \<noteq> db (example_conn None)"
proof -
  let ?a = "default_args\<lparr>auto_seed := True, dry_run := True\<rparr>"
  have m: "main SQLSERVER ?a (example_conn None) example_sheet_existing =
     (\<lparr>db = example_store\<lparr>PUB_TIPOS_TEXTOS :=
            [\<lparr>tt_idTipo = 42, tt_TextoPrimario = Some ''A'', tt_TextoSecundario = None,
              tt_Ativo = 1, tt_IdConteudo = Some 7, tt_Header = None\<rparr>]\<rparr>,
       tran = None, issued = [UpdateTT (Some ''A'') None 42], faults = None\<rparr>, Concluido 1 0)"
    by (simp add: main_sqlserver [OF example_ensure_id(2) example_frames(2)] example_counts
        example_fetch example_update_42)
  have d: "PUB_TIPOS_TEXTOS (example_store\<lparr>PUB_TIPOS_TEXTOS :=
            [\<lparr>tt_idTipo = 42, tt_TextoPrimario = Some ''A'', tt_TextoSecundario = None,
              tt_Ativo = 1, tt_IdConteudo = Some 7, tt_Header = None\<rparr>]\<rparr>)
           \<noteq> PUB_TIPOS_TEXTOS (db (example_conn None))"
    by (simp add: example_conn_def example_store_def)
  then have "example_store\<lparr>PUB_TIPOS_TEXTOS :=
            [\<lparr>tt_idTipo = 42, tt_TextoPrimario = Some ''A'', tt_TextoSecundario = None,
              tt_Ativo = 1, tt_IdConteudo = Some 7, tt_Header = None\<rparr>]\<rparr> \<noteq> db (example_conn None)"
    by metis
  then show ?thesis unfolding m by simp
qed

text \<open>
  Where the flag is looked at it does hold the store still: the Seeder in dry-run mode
  returns the connection as it got it, and a dry run that reaches the Seeder ends there.
\<close>

lemma seed_missing_dry_run: "seed_missing c m True = (c, Inr (0, 0))"
  by (simp add: seed_missing_def Let_def)

lemma main_dry_run_seed_path:
  assumes "ensure_id_tipo c df0 = Inr (df, w)" and "auto_seed a" and "dry_run a"
    and "0 < n_missing c df" and "int (n_missing c df) \<le> max_seed a"
  shows "main SQLSERVER a c df0 = (c, DryRunEnd)"
proof -
  from build_frames_ok [OF ensure_id_tipo_column [OF assms(1)]] obtain ftt ftl where
    b: "build_frames df = Inr (ftt, ftl)" by blast
  show ?thesis
    using assms(2-5)
    by (simp add: main_sqlserver [OF assms(1) b] seed_and_update_def seed_missing_dry_run)
qed

lemma seed_and_update_live:
  assumes "faults c = None" and "\<not> dry_run a"
  shows "\<exists>c' n1 n2.
           seed_and_update a c ids fa ftt ftl = (c', Concluido n1 n2) \<and>
           db c' =
             apply_updates
               (filter (\<lambda>r. present_in ids
                          (seed_store (sort (resolve_with_default a c fa)) (db c)) (idTipo r)) ftt)
               (filter (\<lambda>r. present_in ids
                          (seed_store (sort (resolve_with_default a c fa)) (db c)) (t_idTipo r)) ftl)
               (seed_store (sort (resolve_with_default a c fa)) (db c))"
proof -
  let ?mp = "resolve_with_default a c fa"
  from seed_missing_no_fault [OF assms(1), of ?mp] obtain c1 where
    s: "seed_missing c ?mp False = (c1, Inr (0, 0))" and f1: "faults c1 = None"
    and d1: "db c1 = (if ?mp = [] then db c else seed_store (sort ?mp) (db c))" by blast
  have d1': "db c1 = seed_store (sort ?mp) (db c)"
    using d1 by (cases "?mp = []") (simp_all add: seed_store_def)
  from filter_and_update_no_fault [OF f1, of c1 ids ftt ftl] obtain c' n1 n2 where
    u: "filter_and_update c1 (fetch_existing_idtipos c1 ids) ftt ftl = (c', Concluido n1 n2)"
       "db c' = apply_updates (filter (\<lambda>r. present_in ids (db c1) (idTipo r)) ftt)
                     (filter (\<lambda>r. present_in ids (db c1) (t_idTipo r)) ftl) (db c1)"
    by blast
  have "seed_and_update a c ids fa ftt ftl = (c', Concluido n1 n2)"
    using assms(2) s u(1) by (simp add: seed_and_update_def)
  with u(2) show ?thesis unfolding d1' by blast
qed

lemma fold_update_default_map_of:
  "map_of (fold (\<lambda>idt m. AList.update idt d m) ks m) k =
     (if k \<in> set ks then Some d else map_of m k)"
  by (induction ks arbitrary: m) (auto simp: update_conv')

lemma resolve_with_default_map_of:
  "map_of (resolve_with_default a c fa) k =
     (if k \<in> set fa then
        (if contents_of (db c) k \<noteq> []
         then Some (extremum (if str_lower (pick_idconteudo a) = ''min'' then SQL_MIN else SQL_MAX)
                      (contents_of (db c) k))
         else default_idconteudo a)
      else None)"
proof -
  let ?mapa = "resolve_idconteudo c fa (pick_idconteudo a)"
  have keys: "x \<notin> fst ` set ?mapa \<longleftrightarrow> map_of ?mapa x = None" for x
    by (simp add: map_of_eq_None_iff)
  show ?thesis
  proof (cases "default_idconteudo a")
    case None
    then show ?thesis
      by (simp add: resolve_with_default_def Let_def resolve_idconteudo_map_of)
  next
    case (Some d)
    show ?thesis
    proof (cases "sort (remdups (filter (\<lambda>x. x \<notin> fst ` set ?mapa) fa)) = []")
      case True
      then have "\<forall>x \<in> set fa. map_of ?mapa x \<noteq> None"
        by (simp add: filter_empty_conv keys)
      then have "k \<in> set fa \<Longrightarrow> contents_of (db c) k \<noteq> []"
        by (auto simp: resolve_idconteudo_map_of split: if_splits)
      with True Some show ?thesis
        by (auto simp: resolve_with_default_def Let_def resolve_idconteudo_map_of)
    next
      case False
      have "k \<in> set (sort (remdups (filter (\<lambda>x. x \<notin> fst ` set ?mapa) fa))) \<longleftrightarrow>
            k \<in> set fa \<and> contents_of (db c) k = []"
        by (auto simp: keys resolve_idconteudo_map_of split: if_splits)
      with False Some show ?thesis
        by (simp add: resolve_with_default_def Let_def fold_update_default_map_of
            resolve_idconteudo_map_of)
    qed
  qed
qed

text \<open>
  Claim C3 says that, with seeding enabled and M > 0 missing identifiers, nothing is
  written exactly when M exceeds the cap. Nothing is written above the cap, but also in
  runs below it. As amended: above the cap the run ends at the cap guard with the
  connection untouched, and only then; at or below the cap the run reaches the Seeder; a
  dry run then ends with the connection untouched as well; a live run in which no
  statement fails seeds the resolved mapping, updates the rows whose identifier then
  exists, and changes the store whenever the mapping is not empty. The mapping gives a
  missing identifier the extremum of its content ids, or the default when it has none.
\<close>

theorem seed_cap_guard_paths:
  assumes "ensure_id_tipo c df0 = Inr (df, w)" and "auto_seed a" and "0 < n_missing c df"
  shows
   "(snd (main SQLSERVER a c df0) = AbortMaxSeed \<longleftrightarrow> int (n_missing c df) > max_seed a) \<and>
    (int (n_missing c df) > max_seed a \<longrightarrow> main SQLSERVER a c df0 = (c, AbortMaxSeed)) \<and>
    (int (n_missing c df) \<le> max_seed a \<longrightarrow>
       (\<exists>ftt ftl. build_frames df = Inr (ftt, ftl) \<and>
          main SQLSERVER a c df0 =
            seed_and_update a c (ids_plan_of df)
              (faltam_all_of (ids_plan_of df) (fetch_existing_idtipos c (ids_plan_of df)))
              ftt ftl)) \<and>
    (int (n_missing c df) \<le> max_seed a \<and> dry_run a \<longrightarrow>
       main SQLSERVER a c df0 = (c, DryRunEnd)) \<and>
    (int (n_missing c df) \<le> max_seed a \<and> \<not> dry_run a \<and> faults c = None \<longrightarrow>
       (\<exists>ftt ftl c' n1 n2 mp s1.
          build_frames df = Inr (ftt, ftl) \<and>
          mp = resolve_with_default a c
                 (faltam_all_of (ids_plan_of df) (fetch_existing_idtipos c (ids_plan_of df))) \<and>
          s1 = seed_store (sort mp) (db c) \<and>
          main SQLSERVER a c df0 = (c', Concluido n1 n2) \<and>
          db c' = apply_updates
                    (filter (\<lambda>r. present_in (ids_plan_of df) s1 (idTipo r)) ftt)
                    (filter (\<lambda>r. present_in (ids_plan_of df) s1 (t_idTipo r)) ftl) s1 \<and>
          (mp \<noteq> [] \<longrightarrow> db c' \<noteq> db c))) \<and>
    (\<forall>k. map_of (resolve_with_default a c
                    (faltam_all_of (ids_plan_of df) (fetch_existing_idtipos c (ids_plan_of df)))) k =
          (if k \<in> set (faltam_all_of (ids_plan_of df) (fetch_existing_idtipos c (ids_plan_of df)))
           then (if contents_of (db c) k \<noteq> []
                 then Some (extremum (if str_lower (pick_idconteudo a) = ''min''
                                      then SQL_MIN else SQL_MAX) (contents_of (db c) k))
                 else default_idconteudo a)
           else None)) \<and>
    n_missing c df =
      card {i. (\<exists>r \<in> set (df_rows df). id_tipo r = Some i) \<and> \<not> exists_tt (db c) i}"
proof -
  from build_frames_ok [OF ensure_id_tipo_column [OF assms(1)]] obtain ftt ftl where
    b: "build_frames df = Inr (ftt, ftl)" by blast
  note m = main_sqlserver [OF assms(1) b, of a]
  let ?ids = "ids_plan_of df"
  let ?fa = "faltam_all_of ?ids (fetch_existing_idtipos c ?ids)"
  let ?s = "seed_and_update a c ?ids ?fa ftt ftl"
  let ?mp = "resolve_with_default a c ?fa"
  let ?s1 = "seed_store (sort ?mp) (db c)"
  have 1: "int (n_missing c df) > max_seed a \<Longrightarrow> main SQLSERVER a c df0 = (c, AbortMaxSeed)"
    using m assms(2,3) by simp
  have 2: "int (n_missing c df) \<le> max_seed a \<Longrightarrow> main SQLSERVER a c df0 = ?s"
    using m assms(2,3) by simp
  have 3: "snd (main SQLSERVER a c df0) = AbortMaxSeed \<longleftrightarrow> int (n_missing c df) > max_seed a"
  proof (cases "int (n_missing c df) > max_seed a")
    case True
    with 1 show ?thesis by simp
  next
    case False
    then have "snd (main SQLSERVER a c df0) \<noteq> AbortMaxSeed"
      using 2 seed_and_update_outcome [of a c ?ids ?fa ftt ftl] by simp
    with False show ?thesis by simp
  qed
  have 4: "int (n_missing c df) \<le> max_seed a \<and> dry_run a \<Longrightarrow>
           main SQLSERVER a c df0 = (c, DryRunEnd)"
    using 2 by (simp add: seed_and_update_def seed_missing_dry_run)
  have 5: "\<exists>c' n1 n2.
          main SQLSERVER a c df0 = (c', Concluido n1 n2) \<and>
          db c' = apply_updates
                    (filter (\<lambda>r. present_in ?ids ?s1 (idTipo r)) ftt)
                    (filter (\<lambda>r. present_in ?ids ?s1 (t_idTipo r)) ftl) ?s1 \<and>
          (?mp \<noteq> [] \<longrightarrow> db c' \<noteq> db c)"
    if h: "int (n_missing c df) \<le> max_seed a \<and> \<not> dry_run a \<and> faults c = None"
  proof -
    from h have hf: "faults c = None" "\<not> dry_run a" by simp_all
    from seed_and_update_live [OF hf, of ?ids ?fa ftt ftl] obtain c' n1 n2 where
      r: "?s = (c', Concluido n1 n2)"
         "db c' = apply_updates
                    (filter (\<lambda>r. present_in ?ids ?s1 (idTipo r)) ftt)
                    (filter (\<lambda>r. present_in ?ids ?s1 (t_idTipo r)) ftl) ?s1"
      by (elim exE conjE) (rule that)
    have "db c' \<noteq> db c" if ne: "?mp \<noteq> []"
    proof -
      from ne obtain k v where kv: "(k, v) \<in> set ?mp" by (cases ?mp) auto
      then have k: "k \<in> fst ` set ?mp" by force
      then have "k \<in> set ?fa" using resolve_with_default_keys [of a c ?fa] by blast
      then have n: "\<not> exists_tt (db c) k" by (rule faltam_not_exists)
      have "exists_tt ?s1 k" using k by (simp add: exists_seed_store)
      then have "exists_tt (db c') k" unfolding r(2) by simp
      with n show ?thesis by metis
    qed
    with r 2 h show ?thesis by simp
  qed
  show ?thesis
  proof (intro conjI impI)
    show "snd (main SQLSERVER a c df0) = AbortMaxSeed \<longleftrightarrow> int (n_missing c df) > max_seed a"
      by (rule 3)
    show "main SQLSERVER a c df0 = (c, AbortMaxSeed)" if "int (n_missing c df) > max_seed a"
      using that by (rule 1)
    show "\<exists>ftt ftl. build_frames df = Inr (ftt, ftl) \<and> main SQLSERVER a c df0 =
            seed_and_update a c ?ids ?fa ftt ftl" if "int (n_missing c df) \<le> max_seed a"
      using 2 [OF that] b by blast
    show "main SQLSERVER a c df0 = (c, DryRunEnd)"
      if "int (n_missing c df) \<le> max_seed a \<and> dry_run a"
      using that by (rule 4)
    show "\<exists>ftt ftl c' n1 n2 mp s1.
          build_frames df = Inr (ftt, ftl) \<and>
          mp = resolve_with_default a c ?fa \<and>
          s1 = seed_store (sort mp) (db c) \<and>
          main SQLSERVER a c df0 = (c', Concluido n1 n2) \<and>
          db c' = apply_updates
                    (filter (\<lambda>r. present_in ?ids s1 (idTipo r)) ftt)
                    (filter (\<lambda>r. present_in ?ids s1 (t_idTipo r)) ftl) s1 \<and>
          (mp \<noteq> [] \<longrightarrow> db c' \<noteq> db c)"
      if "int (n_missing c df) \<le> max_seed a \<and> \<not> dry_run a \<and> faults c = None"
      using 5 [OF that] b by blast
    show "\<forall>k. map_of (resolve_with_default a c ?fa) k =
          (if k \<in> set ?fa
           then (if contents_of (db c) k \<noteq> []
                 then Some (extremum (if str_lower (pick_idconteudo a) = ''min''
                                      then SQL_MIN else SQL_MAX) (contents_of (db c) k))
                 else default_idconteudo a)
           else None)"
      by (simp only: resolve_with_default_map_of) simp
    show "n_missing c df =
      card {i. (\<exists>r \<in> set (df_rows df). id_tipo r = Some i) \<and> \<not> exists_tt (db c) i}"
      by (rule n_missing_card)
  qed
qed

lemma example_faltam:
  "faltam_all_of (ids_plan_of example_sheet)
     (fetch_existing_idtipos (example_conn f) (ids_plan_of example_sheet)) = [99]"
  unfolding example_fetch
  by (simp add: faltam_all_of_def ids_plan_of_def example_sheet_def blank_row_def unique_def
      map_filter_simps)

lemma example_resolve:
  "resolve_idconteudo (example_conn f) [99] ''min'' = [(99, 1)]"
  by (simp add: resolve_idconteudo_def str_lower_min_max chunks.simps select_idconteudo_def
      Let_def map_filter_simps unique_def sql_agg_def example_conn_def example_store_def)

lemma example_seed_and_update:
  "seed_and_update (default_args\<lparr>auto_seed := True\<rparr>) (example_conn None)
     (ids_plan_of example_sheet) [99]
     [\<lparr>idTipo = 42, TextoPrimario = Some ''A'', TextoSecundario = None\<rparr>,
      \<lparr>idTipo = 99, TextoPrimario = Some ''B'', TextoSecundario = None\<rparr>] [] =
   (\<lparr>db = example_store\<lparr>
        PUB_TIPOS_TEXTOS :=
          [\<lparr>tt_idTipo = 42, tt_TextoPrimario = Some ''A'', tt_TextoSecundario = None,
            tt_Ativo = 1, tt_IdConteudo = Some 7, tt_Header = None\<rparr>,
           \<lparr>tt_idTipo = 99, tt_TextoPrimario = Some ''B'', tt_TextoSecundario = None,
            tt_Ativo = 1, tt_IdConteudo = Some 1, tt_Header = None\<rparr>],
        PUB_TIPOS_TEXTOS_TITULOS :=
          [\<lparr>tl_idTipo = 99, tl_TextoTitle = Some '''', tl_TextoMetaDescription = Some '''',
            tl_Ativo = 1, tl_IdConteudo = Some 1\<rparr>]\<rparr>,
      tran = None,
      issued = [BeginTran, InsertTT 99 1, InsertTL 99 1, Commit,
                UpdateTT (Some ''A'') None 42, UpdateTT (Some ''B'') None 99],
      faults = None\<rparr>, Concluido 2 0)"
proof -
  have r: "resolve_with_default (default_args\<lparr>auto_seed := True\<rparr>) (example_conn None) [99] = [(99, 1)]"
    by (simp add: resolve_with_default_def default_args_def example_resolve)
  have s: "seed_missing (example_conn None) [(99, 1)] False =
     (\<lparr>db = example_store\<lparr>
        PUB_TIPOS_TEXTOS := PUB_TIPOS_TEXTOS example_store @
          [\<lparr>tt_idTipo = 99, tt_TextoPrimario = Some '''', tt_TextoSecundario = Some '''',
            tt_Ativo = 1, tt_IdConteudo = Some 1, tt_Header = None\<rparr>],
        PUB_TIPOS_TEXTOS_TITULOS :=
          [\<lparr>tl_idTipo = 99, tl_TextoTitle = Some '''', tl_TextoMetaDescription = Some '''',
            tl_Ativo = 1, tl_IdConteudo = Some 1\<rparr>]\<rparr>,
      tran = None, issued = [BeginTran, InsertTT 99 1, InsertTL 99 1, Commit],
      faults = None\<rparr>, Inr (0, 0))"
    by (simp add: eval_simps)
  show ?thesis
    unfolding seed_and_update_def r
    by (simp add: s default_args_def fetch_existing_idtipos_eq ids_plan_of_def example_sheet_def
        blank_row_def unique_def map_filter_simps exists_tt_def example_store_def
        filter_and_update_def run_updates_def update_textos_def execute_def Let_def
        update_tt_def conn_commit_def)
qed

text \<open>
  A dry run below the cap: one identifier is missing, the cap is 50, and the run ends with
  the connection as it was, so that nothing was written although M does not exceed the cap.
\<close>

theorem seed_cap_zero_writes_counterexample:
  "auto_seed (default_args\<lparr>auto_seed := True, dry_run := True\<rparr>) \<and>
   n_missing (example_conn None) example_sheet = 1 \<and>
   \<not> int (n_missing (example_conn None) example_sheet)
       > max_seed (default_args\<lparr>auto_seed := True, dry_run := True\<rparr>) \<and>
   main SQLSERVER (default_args\<lparr>auto_seed := True, dry_run := True\<rparr>) (example_conn None)
     example_sheet = (example_conn None, DryRunEnd) \<and>
   issued (fst (main SQLSERVER (default_args\<lparr>auto_seed := True, dry_run := True\<rparr>)
                  (example_conn None) example_sheet)) = []"
proof -
  let ?ad = "default_args\<lparr>auto_seed := True, dry_run := True\<rparr>"
  have m: "main SQLSERVER ?ad (example_conn None) example_sheet = (example_conn None, DryRunEnd)"
    by (rule main_dry_run_seed_path [OF example_ensure_id(1)])
       (simp_all add: example_counts default_args_def)
  have i: "issued (example_conn None) = []" by (simp add: example_conn_def)
  show ?thesis unfolding m using i by (simp add: example_counts default_args_def)
qed

theorem seed_cap_guard_paths_witness:
  "ensure_id_tipo (example_conn None) example_sheet = Inr (example_sheet, None) \<and>
   auto_seed (default_args\<lparr>auto_seed := True\<rparr>) \<and>
   n_missing (example_conn None) example_sheet = 1 \<and>
   main SQLSERVER (default_args\<lparr>auto_seed := True, max_seed := 0\<rparr>) (example_conn None)
     example_sheet = (example_conn None, AbortMaxSeed) \<and>
   main SQLSERVER (default_args\<lparr>auto_seed := True, dry_run := True\<rparr>) (example_conn None)
     example_sheet = (example_conn None, DryRunEnd) \<and>
   resolve_with_default (default_args\<lparr>auto_seed := True\<rparr>) (example_conn None) [99] = [(99, 1)] \<and>
   db (fst (main SQLSERVER (default_args\<lparr>auto_seed := True\<rparr>) (example_conn None) example_sheet))
     \<noteq> db (example_conn None) \<and>
   (\<exists>c'. main SQLSERVER (default_args\<lparr>auto_seed := True\<rparr>) (example_conn None) example_sheet =
           (c', Concluido 2 0) \<and>
         issued c' = [BeginTran, InsertTT 99 1, InsertTL 99 1, Commit,
                      UpdateTT (Some ''A'') None 42, UpdateTT (Some ''B'') None 99])"
proof -
  let ?c = "example_conn None"
  let ?az = "default_args\<lparr>auto_seed := True, max_seed := 0\<rparr>"
  let ?a = "default_args\<lparr>auto_seed := True\<rparr>"
  have h: "ensure_id_tipo ?c example_sheet = Inr (example_sheet, None)"
    "auto_seed ?az" "auto_seed ?a" "0 < n_missing ?c example_sheet"
    by (simp_all add: example_ensure_id example_counts)
  have gt: "int (n_missing ?c example_sheet) > max_seed ?az" by (simp add: example_counts)
  have le: "int (n_missing ?c example_sheet) \<le> max_seed ?a"
    by (simp add: example_counts default_args_def)
  have 1: "main SQLSERVER ?az ?c example_sheet = (?c, AbortMaxSeed)"
    using seed_cap_guard_paths [OF h(1) h(2) h(4)] gt by blast
  from seed_cap_guard_paths [OF h(1) h(3) h(4)] le obtain ftt ftl where
    b: "build_frames example_sheet = Inr (ftt, ftl)" and
    mm: "main SQLSERVER ?a ?c example_sheet =
       seed_and_update ?a ?c (ids_plan_of example_sheet)
         (faltam_all_of (ids_plan_of example_sheet)
            (fetch_existing_idtipos ?c (ids_plan_of example_sheet))) ftt ftl"
    by blast
  from b have e: "ftt = [\<lparr>idTipo = 42, TextoPrimario = Some ''A'', TextoSecundario = None\<rparr>,
           \<lparr>idTipo = 99, TextoPrimario = Some ''B'', TextoSecundario = None\<rparr>]" "ftl = []"
    by (simp_all add: example_frames)
  have 2: "\<exists>c'. main SQLSERVER ?a ?c example_sheet = (c', Concluido 2 0) \<and>
         issued c' = [BeginTran, InsertTT 99 1, InsertTL 99 1, Commit,
                      UpdateTT (Some ''A'') None 42, UpdateTT (Some ''B'') None 99]"
    unfolding mm e example_faltam example_seed_and_update by simp
  let ?ad = "default_args\<lparr>auto_seed := True, dry_run := True\<rparr>"
  have hd: "auto_seed ?ad" "int (n_missing ?c example_sheet) \<le> max_seed ?ad \<and> dry_run ?ad"
    by (simp_all add: example_counts default_args_def)
  have 3: "main SQLSERVER ?ad ?c example_sheet = (?c, DryRunEnd)"
    using seed_cap_guard_paths [OF h(1) hd(1) h(4)] hd(2) by blast
  have mp: "resolve_with_default ?a ?c [99] = [(99, 1)]"
    by (simp add: resolve_with_default_def default_args_def example_resolve)
  have fc: "faults ?c = None" by (simp add: example_conn_def)
  have hl: "int (n_missing ?c example_sheet) \<le> max_seed ?a \<and> \<not> dry_run ?a \<and> faults ?c = None"
    using fc by (simp add: example_counts default_args_def)
  from seed_cap_guard_paths [OF h(1) h(3) h(4)] hl obtain c' n1 n2 where
    l: "main SQLSERVER ?a ?c example_sheet = (c', Concluido n1 n2)"
       "resolve_with_default ?a ?c
          (faltam_all_of (ids_plan_of example_sheet)
             (fetch_existing_idtipos ?c (ids_plan_of example_sheet))) \<noteq> [] \<longrightarrow> db c' \<noteq> db ?c"
    by blast
  have 4: "db (fst (main SQLSERVER ?a ?c example_sheet)) \<noteq> db ?c"
    using l unfolding example_faltam mp by simp
  from h(1,3) 1 2 3 4 mp show ?thesis by (simp add: example_counts)
qed

lemma example_title:
  "ensure_id_tipo c example_sheet_title = Inr (example_sheet_title, None)"
  "build_frames example_sheet_title =
     Inr ([\<lparr>idTipo = 42, TextoPrimario = Some ''A'', TextoSecundario = None\<rparr>],
          [\<lparr>t_idTipo = 42, TextoTitle = Some ''nan'', TextoMetaDescription = None\<rparr>])"
  "n_ids example_sheet_title = 1" "n_missing example_titles_conn example_sheet_title = 0"
  "fetch_existing_idtipos example_titles_conn (ids_plan_of example_sheet_title) = {42}"
  by (auto simp add: n_ids_def n_missing_def ids_plan_of_def faltam_all_of_def
      fetch_existing_idtipos_eq example_sheet_title_def blank_row_def ensure_id_tipo_def
      build_frames_def Let_def df_get_def astype_str_slice_def
      unique_def map_filter_simps exists_tt_def example_titles_conn_def example_store_def)

text \<open>
  Claim C6 says that the Updater writes a blank input text as SQL \<^verbatim>\<open>NULL\<close> in both
  tables. For the titles table it does not hold of a sheet: the sheet below has a title
  column whose cell is blank, \<^verbatim>\<open>build_frames\<close> hands the Updater the text \<^verbatim>\<open>nan\<close> for
  it, and the run writes that text into \<^verbatim>\<open>TextoTitle\<close>.
\<close>

theorem main_blank_title_written_as_nan:
  "map Texto_Title (df_rows example_sheet_title) = [None] \<and>
   main SQLSERVER default_args example_titles_conn example_sheet_title =
     (\<lparr>db = example_store\<lparr>
          PUB_TIPOS_TEXTOS :=
            [\<lparr>tt_idTipo = 42, tt_TextoPrimario = Some ''A'', tt_TextoSecundario = None,
              tt_Ativo = 1, tt_IdConteudo = Some 7, tt_Header = None\<rparr>],
          PUB_TIPOS_TEXTOS_TITULOS :=
            [\<lparr>tl_idTipo = 42, tl_TextoTitle = Some ''nan'', tl_TextoMetaDescription = None,
              tl_Ativo = 1, tl_IdConteudo = Some 7\<rparr>]\<rparr>,
       tran = None,
       issued = [UpdateTT (Some ''A'') None 42, UpdateTL (Some ''nan'') None 42],
       faults = None\<rparr>, Concluido 1 1)"
proof -
  have g: "\<not> float_gt (py_truediv 0 1) (abort_if_missing_ratio default_args)"
    by (simp add: py_truediv_zero float_gt_def default_args_def)
  have m: "main SQLSERVER default_args example_titles_conn example_sheet_title =
           filter_and_update example_titles_conn {42}
             [\<lparr>idTipo = 42, TextoPrimario = Some ''A'', TextoSecundario = None\<rparr>]
             [\<lparr>t_idTipo = 42, TextoTitle = Some ''nan'', TextoMetaDescription = None\<rparr>]"
    using g
    by (simp add: main_sqlserver [OF example_title(1) example_title(2)] example_title(3,4,5)
        default_args_def)
  show ?thesis unfolding m
    by (simp add: filter_and_update_def run_updates_def update_textos_def update_titulos_def
        execute_def Let_def update_tt_def update_tl_def conn_commit_def
        example_titles_conn_def example_store_def example_sheet_title_def blank_row_def)
qed

text \<open>
  What \<^verbatim>\<open>build_frames\<close> hands to the Updater for a title column that the sheet has: a
  blank cell arrives as the text \<^verbatim>\<open>nan\<close>, so the Updater meets a blank title or meta
  cell only when the sheet lacks that column.
\<close>

lemma astype_str_slice_blank: "astype_str_slice n None = Some (take n ''nan'')"
  by (simp add: astype_str_slice_def)

section \<open>Properties of the watcher\<close>

lemma should_process_same_fingerprint:
  assumes "prev \<noteq> []" and "spec_fingerprint cur = spec_fingerprint prev"
  shows "\<not> should_process (Some prev) cur"
  using assms
  by (auto simp: should_process_def spec_fingerprint_def truthy_def Let_def
      split: option.splits if_splits)

text \<open>
  Claim C9. When the newest file is already recorded and its content fingerprint (the md5
  checksum, or the modification timestamp when there is no checksum) equals the recorded
  one, \<^verbatim>\<open>should_process\<close> is false and the pass of the loop leaves the watcher as it
  was: \<^verbatim>\<open>run_automacao\<close> is not called for that file.
\<close>

theorem watcher_skips_processed_file:
  assumes "map_of (processed w) fid = Some prev" and "prev \<noteq> []"
    and "spec_fingerprint cur_info = spec_fingerprint prev"
  shows "\<not> should_process (map_of (processed w) fid) cur_info \<and>
         tick env w fid cur_info = w \<and>
         invoked (tick env w fid cur_info) = invoked w"
  using should_process_same_fingerprint [OF assms(2,3)] assms(1)
  by (simp add: tick_def)

theorem watcher_skips_processed_file_witness:
  "(let w0 = \<lparr>processed = [], invoked = []\<rparr>;
        w1 = tick ScriptOk w0 ''f1'' (example_info ''abc'');
        w2 = tick ScriptOk w1 ''f1'' (example_info ''abc'');
        w3 = tick ScriptOk w2 ''f1'' (example_info ''abd'')
    in invoked w1 = [''f1''] \<and> map_of (processed w1) ''f1'' = Some (example_info ''abc'') \<and>
       example_info ''abc'' \<noteq> [] \<and> w2 = w1 \<and> invoked w3 = [''f1'', ''f1'']) \<and>
   (let w0 = \<lparr>processed = [(''f2'', example_info_no_md5 ''t1'')], invoked = []\<rparr>
    in tick ScriptOk w0 ''f2'' (example_info_no_md5 ''t1'') = w0 \<and>
       invoked (tick ScriptOk w0 ''f2'' (example_info_no_md5 ''t2'')) = [''f2''])"
proof -
  let ?w0 = "\<lparr>processed = [], invoked = []\<rparr>"
  let ?w1 = "tick ScriptOk ?w0 ''f1'' (example_info ''abc'')"
  have w1: "?w1 = \<lparr>processed = [(''f1'', example_info ''abc'')], invoked = [''f1'']\<rparr>"
    by (simp add: tick_def should_process_def)
  have p1: "map_of (processed ?w1) ''f1'' = Some (example_info ''abc'')"
    "example_info ''abc'' \<noteq> []"
    "spec_fingerprint (example_info ''abc'') = spec_fingerprint (example_info ''abc'')"
    unfolding w1 by (simp_all add: example_info_def)
  have s1: "tick ScriptOk ?w1 ''f1'' (example_info ''abc'') = ?w1"
    using watcher_skips_processed_file [OF p1] by simp
  have s2: "invoked (tick ScriptOk ?w1 ''f1'' (example_info ''abd'')) = [''f1'', ''f1'']"
    unfolding w1
    by (simp add: tick_def should_process_def example_info_def dict_get_def truthy_def Let_def)
  let ?v0 = "\<lparr>processed = [(''f2'', example_info_no_md5 ''t1'')], invoked = []\<rparr>"
  have p2: "map_of (processed ?v0) ''f2'' = Some (example_info_no_md5 ''t1'')"
    "example_info_no_md5 ''t1'' \<noteq> []"
    "spec_fingerprint (example_info_no_md5 ''t1'') = spec_fingerprint (example_info_no_md5 ''t1'')"
    by (simp_all add: example_info_no_md5_def)
  have s3: "tick ScriptOk ?v0 ''f2'' (example_info_no_md5 ''t1'') = ?v0"
    using watcher_skips_processed_file [OF p2] by simp
  have s4: "invoked (tick ScriptOk ?v0 ''f2'' (example_info_no_md5 ''t2'')) = [''f2'']"
    by (simp add: tick_def should_process_def example_info_no_md5_def dict_get_def truthy_def Let_def)
  show ?thesis unfolding Let_def using w1 p1(1,2) s1 s2 s3 s4 by simp
qed

end
